theory Spec2Isabelle
  imports Complex_Main "HOL-Library.Word" "HOL-Library.Multiset"
begin

unbundle bit_operations_syntax

section \<open>Data model\<close>

text \<open>
  The terrain pipeline of \<^verbatim>\<open>World.cpp\<close> and the noise engine of \<^verbatim>\<open>Noise.cpp\<close>.

  Conventions of the embedding.
  \<^item> A C++ \<^verbatim>\<open>float\<close> is a \<^typ>\<open>real\<close>: arithmetic is exact, there is no rounding, no
    infinity and no NaN, and a decimal literal such as \<^verbatim>\<open>0.82f\<close> stands for the decimal
    it is written as. What is proved below is therefore the control flow and the
    algebra of the program, not its rounding behaviour.
  \<^item> A C++ \<^verbatim>\<open>int\<close> is an \<^typ>\<open>int\<close> without wrap-around; a loop counter that runs from
    \<^verbatim>\<open>0\<close> up to a bound is a \<^typ>\<open>nat\<close>.
  \<^item> A \<^verbatim>\<open>Uint8\<close> colour channel is an \<^typ>\<open>8 word\<close>.
  \<^item> \<^verbatim>\<open>std::vector<std::vector<T>>\<close> is a list of rows, \<^verbatim>\<open>v[y][x]\<close> is \<open>v ! y ! x\<close>.
  \<^item> Record fields carry a prefix (\<open>td_\<close> for \<^verbatim>\<open>TerrainData\<close>, \<open>tile_\<close> for \<^verbatim>\<open>Tile\<close>,
    \<open>col_\<close> for \<^verbatim>\<open>SDL_Color\<close>, \<open>bp_\<close> for \<^verbatim>\<open>BiomeProperties\<close>), since two structs of
    the source share field names.
\<close>

datatype BiomeType =
  DEEP_WATER | SHALLOW_WATER | BEACH | PLAINS | FOREST | HILLS | MOUNTAINS | SNOW_CAPS

record SDL_Color =
  col_r :: "8 word"
  col_g :: "8 word"
  col_b :: "8 word"
  col_a :: "8 word"

record BiomeProperties =
  bp_baseColor :: SDL_Color
  bp_heightModifier :: real
  bp_roughness :: real
  bp_walkable :: bool

record TerrainData =
  td_elevation :: real
  td_moisture :: real
  td_riverValue :: real
  td_biome :: BiomeType

record Tile =
  tile_x :: int
  tile_y :: int
  tile_elevation :: int
  tile_color :: SDL_Color
  tile_walkable :: bool

subsection \<open>Constants of \<^verbatim>\<open>GameConstants.h\<close>\<close>

definition WORLD_WIDTH :: nat where "WORLD_WIDTH = 128"
definition WORLD_HEIGHT :: nat where "WORLD_HEIGHT = 128"

definition WATER_LEVEL :: real where "WATER_LEVEL = 20"
definition BEACH_LEVEL :: real where "BEACH_LEVEL = 23"
definition PLAINS_LEVEL :: real where "PLAINS_LEVEL = 35"
definition HILLS_LEVEL :: real where "HILLS_LEVEL = 50"
definition MOUNTAIN_LEVEL :: real where "MOUNTAIN_LEVEL = 70"

definition CONTINENT_OCTAVES :: int where "CONTINENT_OCTAVES = 4"
definition TERRAIN_OCTAVES :: int where "TERRAIN_OCTAVES = 6"
definition RIVER_OCTAVES :: int where "RIVER_OCTAVES = 2"
definition RIVER_THRESHOLD :: real where "RIVER_THRESHOLD = 82 / 100"

lemmas level_defs =
  WATER_LEVEL_def BEACH_LEVEL_def PLAINS_LEVEL_def HILLS_LEVEL_def MOUNTAIN_LEVEL_def
  RIVER_THRESHOLD_def

section \<open>Biome classification (\<^verbatim>\<open>World.cpp\<close>)\<close>

text \<open>\<^verbatim>\<open>DetermineBiome\<close>: a cascade of early returns, kept in the order of the source,
  with the two moisture tests of the lowland band that both return \<^verbatim>\<open>PLAINS\<close>.\<close>

definition DetermineBiome :: "real \<Rightarrow> real \<Rightarrow> BiomeType" where
  "DetermineBiome elevation moisture =
     (if elevation < WATER_LEVEL - 5 then DEEP_WATER
      else if elevation < WATER_LEVEL then SHALLOW_WATER
      else if elevation < BEACH_LEVEL then BEACH
      else if elevation < PLAINS_LEVEL then
        (if moisture < 3 / 10 then PLAINS
         else if moisture < 6 / 10 then PLAINS
         else FOREST)
      else if elevation < HILLS_LEVEL then
        (if moisture < 4 / 10 then HILLS else FOREST)
      else if elevation < MOUNTAIN_LEVEL then MOUNTAINS
      else SNOW_CAPS)"

text \<open>The threshold table as the specification words it, for comparison with the code.\<close>

definition classifyBiome_spec :: "real \<Rightarrow> real \<Rightarrow> BiomeType" where
  "classifyBiome_spec e m =
     (if e < WATER_LEVEL - 5 then DEEP_WATER
      else if e < WATER_LEVEL then SHALLOW_WATER
      else if e < BEACH_LEVEL then BEACH
      else if e < PLAINS_LEVEL then (if m \<ge> 6 / 10 then FOREST else PLAINS)
      else if e < HILLS_LEVEL then (if m \<ge> 4 / 10 then FOREST else HILLS)
      else if e < MOUNTAIN_LEVEL then MOUNTAINS
      else SNOW_CAPS)"

definition mkColor :: "8 word \<Rightarrow> 8 word \<Rightarrow> 8 word \<Rightarrow> 8 word \<Rightarrow> SDL_Color" where
  "mkColor cr cg cb ca = \<lparr>col_r = cr, col_g = cg, col_b = cb, col_a = ca\<rparr>"

definition mkProps :: "SDL_Color \<Rightarrow> real \<Rightarrow> real \<Rightarrow> bool \<Rightarrow> BiomeProperties" where
  "mkProps c h ro w =
     \<lparr>bp_baseColor = c, bp_heightModifier = h, bp_roughness = ro, bp_walkable = w\<rparr>"

text \<open>\<^verbatim>\<open>CreateBiomeProperties\<close> builds a \<^verbatim>\<open>std::map\<close> from an initializer list: an
  association list, read through \<open>map_of\<close>.\<close>

definition CreateBiomeProperties :: "(BiomeType \<times> BiomeProperties) list" where
  "CreateBiomeProperties =
     [(DEEP_WATER,    mkProps (mkColor 0 64 220 255)    (3 / 10)  (1 / 10) False),
      (SHALLOW_WATER, mkProps (mkColor 0 128 255 255)   (5 / 10)  (2 / 10) False),
      (BEACH,         mkProps (mkColor 240 220 180 255) (6 / 10)  (2 / 10) True),
      (PLAINS,        mkProps (mkColor 100 210 100 255) 1         (3 / 10) True),
      (FOREST,        mkProps (mkColor 21 120 35 255)   (11 / 10) (4 / 10) True),
      (HILLS,         mkProps (mkColor 90 160 90 255)   (12 / 10) (6 / 10) True),
      (MOUNTAINS,     mkProps (mkColor 150 140 130 255) (15 / 10) (8 / 10) False),
      (SNOW_CAPS,     mkProps (mkColor 255 255 255 255) (16 / 10) (9 / 10) False)]"

text \<open>Failures of the generation code: \<^verbatim>\<open>std::map::at\<close> throws \<^verbatim>\<open>std::out_of_range\<close> on a
  missing key; a float division by zero is kept apart as well, since it would put a NaN
  or an infinity into the field.\<close>

datatype gen_error = OutOfRange | DivisionByZero

definition map_at :: "('k \<times> 'v) list \<Rightarrow> 'k \<Rightarrow> gen_error + 'v" where
  "map_at m k = (case map_of m k of None \<Rightarrow> Inl OutOfRange | Some v \<Rightarrow> Inr v)"

section \<open>The noise engine (\<^verbatim>\<open>Noise.cpp\<close>)\<close>

definition Fade :: "real \<Rightarrow> real" where
  "Fade t = t * t * t * (t * (t * 6 - 15) + 10)"

text \<open>\<^verbatim>\<open>Grad\<close>: the locals \<^verbatim>\<open>u\<close> and \<^verbatim>\<open>v\<close> are functions of their own here, so that
  statements can name them. \<^verbatim>\<open>hash & 15\<close> is the bitwise and of two's complement
  integers.\<close>

definition Grad_u :: "int \<Rightarrow> real \<Rightarrow> real \<Rightarrow> real" where
  "Grad_u hash x y = (let h = hash AND 15 in if h < 8 then x else y)"

definition Grad_v :: "int \<Rightarrow> real \<Rightarrow> real \<Rightarrow> real" where
  "Grad_v hash x y =
     (let h = hash AND 15 in if h < 4 then y else if h = 12 \<or> h = 14 then x else 0)"

definition Grad :: "int \<Rightarrow> real \<Rightarrow> real \<Rightarrow> real" where
  "Grad hash x y =
     (let h = hash AND 15; u = Grad_u hash x y; v = Grad_v hash x y
      in (if h AND 1 = 0 then u else - u) + (if h AND 2 = 0 then v else - v))"

definition Lerp :: "real \<Rightarrow> real \<Rightarrow> real \<Rightarrow> real" where
  "Lerp a b t = a + t * (b - a)"

definition permutation :: "int list" where
  "permutation =
     [151, 160, 137, 91, 90, 15, 131, 13, 201, 95, 96, 53, 194, 233, 7, 225,
      140, 36, 103, 30, 69, 142, 8, 99, 37, 240, 21, 10, 23, 190, 6, 148,
      247, 120, 234, 75, 0, 26, 197, 62, 94, 252, 219, 203, 117, 35, 11, 32,
      57, 177, 33, 88, 237, 149, 56, 87, 174, 20, 125, 136, 171, 168, 68, 175,
      74, 165, 71, 134, 139, 48, 27, 166, 77, 146, 158, 231, 83, 111, 229, 122,
      60, 211, 133, 230, 220, 105, 92, 41, 55, 46, 245, 40, 244, 102, 143, 54,
      65, 25, 63, 161, 1, 216, 80, 73, 209, 76, 132, 187, 208, 89, 18, 169,
      200, 196, 135, 130, 116, 188, 159, 86, 164, 100, 109, 198, 173, 186, 3, 64,
      52, 217, 226, 250, 124, 123, 5, 202, 38, 147, 118, 126, 255, 82, 85, 212,
      207, 206, 59, 227, 47, 16, 58, 17, 182, 189, 28, 42, 223, 183, 170, 213,
      119, 248, 152, 2, 44, 154, 163, 70, 221, 153, 101, 155, 167, 43, 172, 9,
      129, 22, 39, 253, 19, 98, 108, 110, 79, 113, 224, 232, 178, 185, 112, 104,
      218, 246, 97, 228, 251, 34, 242, 193, 238, 210, 144, 12, 191, 179, 162, 241,
      81, 51, 145, 235, 249, 14, 239, 107, 49, 192, 214, 31, 181, 199, 106, 157,
      184, 84, 204, 176, 115, 121, 50, 45, 127, 4, 150, 254, 138, 236, 205, 93,
      222, 114, 67, 29, 24, 72, 243, 141, 128, 195, 78, 66, 215, 61, 156, 180]"

text \<open>The two function-local statics of \<^verbatim>\<open>PerlinNoise\<close>: the table \<^verbatim>\<open>p(512)\<close>, which a
  vector constructor fills with zeros, and \<^verbatim>\<open>lastSeed = -1\<close>. They outlive the calls, so
  every call takes the cache and returns it.\<close>

record noise_cache =
  nc_p :: "int list"
  nc_lastSeed :: int

definition initial_cache :: noise_cache where
  "initial_cache = \<lparr>nc_p = replicate 512 0, nc_lastSeed = - 1\<rparr>"

text \<open>\<open>shuffle seed xs\<close> stands for \<^verbatim>\<open>std::mt19937 gen(seed); std::shuffle(..., gen)\<close> on a
  copy of \<open>xs\<close>: the generator and the algorithm are the standard library's, not code of
  this program, and all that is used of them is that the result depends on the seed and
  the input only and, where stated, that it is a rearrangement of the input.\<close>

definition refresh_table ::
  "(int \<Rightarrow> int list \<Rightarrow> int list) \<Rightarrow> int \<Rightarrow> noise_cache \<Rightarrow> noise_cache" where
  "refresh_table shuffle seed c =
     (if seed \<noteq> nc_lastSeed c then
        (let base_perm = shuffle seed permutation;
             p = fold (\<lambda>i p. p[i := base_perm ! i, 256 + i := base_perm ! i])
                      [0..<256] (nc_p c)
         in \<lparr>nc_p = p, nc_lastSeed = seed\<rparr>)
      else c)"

text \<open>\<^verbatim>\<open>PerlinNoise\<close> in two steps: the refresh of the static table, then the lattice
  lookup and interpolation, which read the table only.\<close>

definition perlin_at :: "int list \<Rightarrow> real \<Rightarrow> real \<Rightarrow> real" where
  "perlin_at p x0 y0 =
     (let X = \<lfloor>x0\<rfloor> AND 255;
          Y = \<lfloor>y0\<rfloor> AND 255;
          x = x0 - of_int \<lfloor>x0\<rfloor>;
          y = y0 - of_int \<lfloor>y0\<rfloor>;
          u = Fade x;
          v = Fade y;
          A = p ! nat X + Y;
          AA = p ! nat A;
          AB = p ! nat (A + 1);
          B = p ! nat (X + 1) + Y;
          BA = p ! nat B;
          BB = p ! nat (B + 1)
      in Lerp (Lerp (Grad (p ! nat AA) x y) (Grad (p ! nat BA) (x - 1) y) u)
              (Lerp (Grad (p ! nat AB) x (y - 1)) (Grad (p ! nat BB) (x - 1) (y - 1)) u)
              v)"

definition PerlinNoise ::
  "(int \<Rightarrow> int list \<Rightarrow> int list) \<Rightarrow> real \<Rightarrow> real \<Rightarrow> int \<Rightarrow> noise_cache
     \<Rightarrow> real \<times> noise_cache" where
  "PerlinNoise shuffle x y seed c =
     (let c' = refresh_table shuffle seed c in (perlin_at (nc_p c') x y, c'))"

text \<open>The states the cache can be in: untouched, or holding the doubled shuffle of the
  seed it remembers.\<close>

definition cache_ok :: "(int \<Rightarrow> int list \<Rightarrow> int list) \<Rightarrow> noise_cache \<Rightarrow> bool" where
  "cache_ok shuffle c =
     (c = initial_cache
      \<or> nc_p c = shuffle (nc_lastSeed c) permutation @ shuffle (nc_lastSeed c) permutation)"

text \<open>A float division whose divisor is zero is reported instead of yielding an infinity
  or a NaN.\<close>

definition fdiv :: "real \<Rightarrow> real \<Rightarrow> gen_error + real" where
  "fdiv a b = (if b = 0 then Inl DivisionByZero else Inr (a / b))"

text \<open>The octave loop of \<^verbatim>\<open>LayeredNoise\<close>, with the loop variables as arguments (\<open>tot\<close> is
  \<^verbatim>\<open>total\<close>).\<close>

function LayeredNoise_loop ::
  "(int \<Rightarrow> int list \<Rightarrow> int list) \<Rightarrow> real \<Rightarrow> real \<Rightarrow> int \<Rightarrow> real \<Rightarrow> int
     \<Rightarrow> int \<Rightarrow> real \<Rightarrow> real \<Rightarrow> real \<Rightarrow> real \<Rightarrow> noise_cache
     \<Rightarrow> real \<times> real \<times> noise_cache" where
  "LayeredNoise_loop shuffle x y octaves persistence seed i amplitude frequency tot maxValue c =
     (if i < octaves then
        (case PerlinNoise shuffle (x * frequency) (y * frequency) (seed + i) c of
           (n, c') \<Rightarrow>
             LayeredNoise_loop shuffle x y octaves persistence seed (i + 1)
               (amplitude * persistence) (frequency * 2)
               (tot + n * amplitude) (maxValue + amplitude) c')
      else (tot, maxValue, c))"
  by pat_completeness auto
termination
  by (relation "measure (\<lambda>(shuffle, x, y, octaves, persistence, seed, i, rest). nat (octaves - i))")
     auto

declare LayeredNoise_loop.simps [simp del]

definition LayeredNoise ::
  "(int \<Rightarrow> int list \<Rightarrow> int list) \<Rightarrow> real \<Rightarrow> real \<Rightarrow> int \<Rightarrow> real \<Rightarrow> real \<Rightarrow> int
     \<Rightarrow> noise_cache \<Rightarrow> (gen_error + real) \<times> noise_cache" where
  "LayeredNoise shuffle x y octaves persistence scale seed c =
     (case LayeredNoise_loop shuffle x y octaves persistence seed 0 1 scale 0 0 c of
        (tot, maxValue, c') \<Rightarrow>
          (if maxValue > 0 then fdiv tot maxValue else Inr 0, c'))"

section \<open>Pass 2 of \<^verbatim>\<open>GenerateWorld\<close>: rivers and lakes\<close>

text \<open>\<^verbatim>\<open>std::min(a, b)\<close> returns \<^verbatim>\<open>b\<close> when \<^verbatim>\<open>b < a\<close> and \<^verbatim>\<open>a\<close> otherwise.\<close>

definition std_min :: "real \<Rightarrow> real \<Rightarrow> real" where
  "std_min a b = (if b < a then b else a)"

text \<open>The body of the Pass 2 loop, on the cell \<^verbatim>\<open>data = terrainData[y][x]\<close>. The
  tributary test sits inside the branch \<^verbatim>\<open>riverValue > RIVER_THRESHOLD\<close>, as in the
  source.\<close>

definition carve_river :: "TerrainData \<Rightarrow> TerrainData" where
  "carve_river data =
     (if td_riverValue data > RIVER_THRESHOLD then
        (let riverStrength = (td_riverValue data - RIVER_THRESHOLD) / (1 - RIVER_THRESHOLD);
             data1 = data\<lparr>td_elevation :=
                       std_min (td_elevation data) (WATER_LEVEL - riverStrength * 5)\<rparr>
         in if td_riverValue data1 > RIVER_THRESHOLD - 1 / 10
               \<and> td_riverValue data1 \<le> RIVER_THRESHOLD
            then data1\<lparr>td_elevation := std_min (td_elevation data1) (WATER_LEVEL - 1)\<rparr>
            else data1)
      else data)"

definition carve_lake :: "TerrainData \<Rightarrow> TerrainData" where
  "carve_lake data =
     (if td_elevation data < WATER_LEVEL + 5 \<and> td_moisture data > 7 / 10
      then data\<lparr>td_elevation := std_min (td_elevation data) (WATER_LEVEL - 2)\<rparr>
      else data)"

definition carve_cell :: "TerrainData \<Rightarrow> TerrainData" where
  "carve_cell data = carve_lake (carve_river data)"

text \<open>The two nested \<^verbatim>\<open>for\<close> loops update the grid in place, cell after cell. The
  dimensions are arguments of the loops; \<^verbatim>\<open>GenerateWorld\<close> passes the constants.\<close>

definition pass2_row :: "nat \<Rightarrow> TerrainData list \<Rightarrow> TerrainData list" where
  "pass2_row W row = fold (\<lambda>x r. r[x := carve_cell (r ! x)]) [0..<W] row"

definition pass2 :: "nat \<Rightarrow> nat \<Rightarrow> TerrainData list list \<Rightarrow> TerrainData list list" where
  "pass2 W H terrainData = fold (\<lambda>y t. t[y := pass2_row W (t ! y)]) [0..<H] terrainData"

text \<open>A grid of \<open>H\<close> rows of \<open>W\<close> cells, as the vector constructors of the source build.\<close>

definition grid_ok :: "nat \<Rightarrow> nat \<Rightarrow> 'a list list \<Rightarrow> bool" where
  "grid_ok W H t = (length t = H \<and> list_all (\<lambda>row. length row = W) t)"

section \<open>Pass 3 of \<^verbatim>\<open>GenerateWorld\<close>: smoothing\<close>

text \<open>The two inner loops over \<^verbatim>\<open>ny\<close> and \<^verbatim>\<open>nx\<close> accumulate \<^verbatim>\<open>total\<close> and \<^verbatim>\<open>count\<close>;
  their bounds are the \<^verbatim>\<open>std::max\<close>/\<^verbatim>\<open>std::min\<close> expressions of the source, computed on
  \<^typ>\<open>int\<close>.\<close>

definition neighbour_total ::
  "nat \<Rightarrow> nat \<Rightarrow> TerrainData list list \<Rightarrow> nat \<Rightarrow> nat \<Rightarrow> real \<times> int" where
  "neighbour_total W H terrainData x y =
     fold (\<lambda>ny acc.
             fold (\<lambda>nx (total, count).
                     (total + td_elevation (terrainData ! nat ny ! nat nx), count + 1))
                  [max 0 (int x - 1) .. min (int W - 1) (int x + 1)] acc)
          [max 0 (int y - 1) .. min (int H - 1) (int y + 1)] (0, 0)"

definition smooth_cell :: "nat \<Rightarrow> nat \<Rightarrow> TerrainData list list \<Rightarrow> nat \<Rightarrow> nat \<Rightarrow> real" where
  "smooth_cell W H terrainData x y =
     (let (total, count) = neighbour_total W H terrainData x y in
        if td_elevation (terrainData ! y ! x) \<le> WATER_LEVEL
        then td_elevation (terrainData ! y ! x)
        else (total / real_of_int count) * (7 / 10)
               + td_elevation (terrainData ! y ! x) * (3 / 10))"

text \<open>\<^verbatim>\<open>smoothedElevation\<close> is a fresh buffer of zeros that the first pair of loops fills;
  the second pair of loops copies it back into \<^verbatim>\<open>terrainData\<close>.\<close>

definition smooth_all :: "nat \<Rightarrow> nat \<Rightarrow> TerrainData list list \<Rightarrow> real list list" where
  "smooth_all W H terrainData =
     fold (\<lambda>y s. fold (\<lambda>x s. s[y := (s ! y)[x := smooth_cell W H terrainData x y]])
                       [0..<W] s)
          [0..<H] (replicate H (replicate W 0))"

definition copy_back ::
  "nat \<Rightarrow> nat \<Rightarrow> real list list \<Rightarrow> TerrainData list list \<Rightarrow> TerrainData list list" where
  "copy_back W H smoothedElevation terrainData =
     fold (\<lambda>y t. fold (\<lambda>x t. t[y := (t ! y)[x :=
                                 (t ! y ! x)\<lparr>td_elevation := smoothedElevation ! y ! x\<rparr>]])
                       [0..<W] t)
          [0..<H] terrainData"

definition pass3 :: "nat \<Rightarrow> nat \<Rightarrow> TerrainData list list \<Rightarrow> TerrainData list list" where
  "pass3 W H terrainData = copy_back W H (smooth_all W H terrainData) terrainData"

text \<open>The neighbourhood as the specification words it: the 3x3 block around the cell,
  cut to the grid.\<close>

definition nbhd :: "nat \<Rightarrow> nat \<Rightarrow> nat \<Rightarrow> nat \<Rightarrow> (nat \<times> nat) set" where
  "nbhd W H x y =
     {(nx, ny). nx < W \<and> ny < H \<and> nx \<le> x + 1 \<and> x \<le> nx + 1 \<and> ny \<le> y + 1 \<and> y \<le> ny + 1}"

section \<open>Pass 4 of \<^verbatim>\<open>GenerateWorld\<close>: tiles\<close>

text \<open>\<^verbatim>\<open>std::clamp(v, lo, hi)\<close>, and \<^verbatim>\<open>static_cast<int>\<close> of a float, which drops the
  fraction (towards zero).\<close>

definition std_clamp :: "int \<Rightarrow> int \<Rightarrow> int \<Rightarrow> int" where
  "std_clamp v lo hi = (if v < lo then lo else if hi < v then hi else v)"

definition trunc_int :: "real \<Rightarrow> int" where
  "trunc_int v = (if v < 0 then \<lceil>v\<rceil> else \<lfloor>v\<rfloor>)"

text \<open>The colour of a tile. \<open>variation x y k\<close> is the \<open>k\<close>-th number that
  \<^verbatim>\<open>variation(gen)\<close> draws for the cell \<open>(x, y)\<close>: the generator is seeded from
  \<^verbatim>\<open>std::random_device\<close> for every cell, so the draws are an input of the model. The three
  debug branches come first, as in the source.\<close>

definition tile_colour ::
  "(nat \<Rightarrow> nat \<Rightarrow> nat \<Rightarrow> int) \<Rightarrow> nat \<Rightarrow> nat \<Rightarrow> BiomeProperties \<Rightarrow> nat \<Rightarrow> nat \<Rightarrow> SDL_Color" where
  "tile_colour variation W H props x y =
     (if (int x + int y) mod 10 = 0 then mkColor 255 0 0 255
      else if int x = 0 \<or> int y = 0 \<or> int x = int W - 1 \<or> int y = int H - 1
        then mkColor 255 255 0 255
      else if int x = int W div 2 \<or> int y = int H div 2 then mkColor 0 0 255 255
      else mkColor
        (word_of_int (std_clamp (uint (col_r (bp_baseColor props)) + variation x y 0) 0 255))
        (word_of_int (std_clamp (uint (col_g (bp_baseColor props)) + variation x y 1) 0 255))
        (word_of_int (std_clamp (uint (col_b (bp_baseColor props)) + variation x y 2) 0 255))
        255)"

text \<open>The body of the Pass 4 loop for the cell \<open>(x, y)\<close>. The biome that the source also
  stores into the local \<^verbatim>\<open>terrainData\<close> is not kept: that vector dies with the call.\<close>

definition finalize_cell ::
  "(nat \<Rightarrow> nat \<Rightarrow> nat \<Rightarrow> int) \<Rightarrow> nat \<Rightarrow> nat \<Rightarrow> (BiomeType \<times> BiomeProperties) list
     \<Rightarrow> nat \<Rightarrow> nat \<Rightarrow> TerrainData \<Rightarrow> gen_error + Tile" where
  "finalize_cell variation W H biomeProps x y data =
     (let biome = DetermineBiome (td_elevation data) (td_moisture data)
      in case map_at biomeProps biome of
           Inl e \<Rightarrow> Inl e
         | Inr props \<Rightarrow>
             Inr \<lparr>tile_x = int x, tile_y = int y,
                  tile_elevation = trunc_int (td_elevation data),
                  tile_color = tile_colour variation W H props x y,
                  tile_walkable = bp_walkable props\<rparr>)"

definition default_tile :: Tile where
  "default_tile = \<lparr>tile_x = 0, tile_y = 0, tile_elevation = 0,
                    tile_color = mkColor 0 0 0 0, tile_walkable = False\<rparr>"

text \<open>The loops of Pass 4 fill \<^verbatim>\<open>world\<close>; an exception of \<^verbatim>\<open>at\<close> leaves them at once.\<close>

definition pass4_row ::
  "(nat \<Rightarrow> nat \<Rightarrow> nat \<Rightarrow> int) \<Rightarrow> nat \<Rightarrow> nat \<Rightarrow> (BiomeType \<times> BiomeProperties) list
     \<Rightarrow> TerrainData list list \<Rightarrow> nat \<Rightarrow> gen_error + Tile list list
     \<Rightarrow> gen_error + Tile list list" where
  "pass4_row variation W H biomeProps terrainData y world0 =
     fold (\<lambda>x acc. case acc of
                      Inl e \<Rightarrow> Inl e
                    | Inr world \<Rightarrow>
                        (case finalize_cell variation W H biomeProps x y (terrainData ! y ! x) of
                           Inl e \<Rightarrow> Inl e
                         | Inr tile \<Rightarrow> Inr (world[y := (world ! y)[x := tile]])))
          [0..<W] world0"

definition pass4 ::
  "(nat \<Rightarrow> nat \<Rightarrow> nat \<Rightarrow> int) \<Rightarrow> nat \<Rightarrow> nat \<Rightarrow> (BiomeType \<times> BiomeProperties) list
     \<Rightarrow> TerrainData list list \<Rightarrow> gen_error + Tile list list" where
  "pass4 variation W H biomeProps terrainData =
     fold (\<lambda>y acc. pass4_row variation W H biomeProps terrainData y acc)
          [0..<H] (Inr (replicate H (replicate W default_tile)))"

text \<open>The colour rule as the specification words it: the base colour of the biome plus a
  jitter between -5 and 5 on each channel, each channel clamped to the range of a byte.\<close>

definition jitter_colour_spec :: "SDL_Color \<Rightarrow> SDL_Color \<Rightarrow> bool" where
  "jitter_colour_spec base c =
     (\<exists>jr\<in>{-5..5}. \<exists>jg\<in>{-5..5}. \<exists>jb\<in>{-5..5}.
        uint (col_r c) = std_clamp (uint (col_r base) + jr) 0 255
        \<and> uint (col_g c) = std_clamp (uint (col_g base) + jg) 0 255
        \<and> uint (col_b c) = std_clamp (uint (col_b base) + jb) 0 255)"

text \<open>Passes 2 to 4, the part of \<^verbatim>\<open>GenerateWorld\<close> that follows the noise synthesis.\<close>

definition finish_world ::
  "(nat \<Rightarrow> nat \<Rightarrow> nat \<Rightarrow> int) \<Rightarrow> nat \<Rightarrow> nat \<Rightarrow> TerrainData list list
     \<Rightarrow> gen_error + Tile list list" where
  "finish_world variation W H terrainData =
     pass4 variation W H CreateBiomeProperties (pass3 W H (pass2 W H terrainData))"

section \<open>Pass 1 of \<^verbatim>\<open>GenerateWorld\<close> and the whole function\<close>

text \<open>The body of the Pass 1 loop: five calls of \<^verbatim>\<open>LayeredNoise\<close>, which pass the noise
  cache along, then the island falloff. It yields the three floats that the loop stores
  into \<^verbatim>\<open>terrainData[y][x]\<close>. \<^verbatim>\<open>std::pow(mountain, 3.0f)\<close> is the cube and
  \<^verbatim>\<open>std::pow(islandFactor, 0.5f)\<close> the square root of a number between 0 and 1. A
  division by zero inside the noise would end the model's run with that error.\<close>

definition pass1_cell ::
  "(int \<Rightarrow> int list \<Rightarrow> int list) \<Rightarrow> nat \<Rightarrow> nat \<Rightarrow> nat \<Rightarrow> nat \<Rightarrow> noise_cache
     \<Rightarrow> (gen_error + real \<times> real \<times> real) \<times> noise_cache" where
  "pass1_cell shuffle W H x y c0 =
     (let nx = real x / real W; ny = real y / real H in
      case LayeredNoise shuffle (nx * (1 / 2)) (ny * (1 / 2)) CONTINENT_OCTAVES (6 / 10) (1 / 2) 1 c0 of
        (Inl e, c1) \<Rightarrow> (Inl e, c1)
      | (Inr continentShape, c1) \<Rightarrow>
      (case LayeredNoise shuffle (nx * 5) (ny * 5) TERRAIN_OCTAVES (1 / 2) 2 2 c1 of
        (Inl e, c2) \<Rightarrow> (Inl e, c2)
      | (Inr terrainDetail, c2) \<Rightarrow>
      (case LayeredNoise shuffle (nx * 3) (ny * 3) 4 (7 / 10) (3 / 2) 5 c2 of
        (Inl e, c3) \<Rightarrow> (Inl e, c3)
      | (Inr ridge, c3) \<Rightarrow>
      (case LayeredNoise shuffle (nx * 4) (ny * 4) 4 (1 / 2) 2 3 c3 of
        (Inl e, c4) \<Rightarrow> (Inl e, c4)
      | (Inr moisture, c4) \<Rightarrow>
      (case LayeredNoise shuffle (nx * 8) (ny * 8) RIVER_OCTAVES (7 / 10) 3 4 c4 of
        (Inl e, c5) \<Rightarrow> (Inl e, c5)
      | (Inr riverValue, c5) \<Rightarrow>
          (let mountain = (1 - \<bar>ridge * 2 - 1\<bar>) ^ 3;
               dx = nx - 1 / 2;
               dy = ny - 1 / 2;
               distanceFromCenter = sqrt (dx * dx + dy * dy) * 2;
               islandFactor = sqrt (1 - std_min 1 distanceFromCenter);
               elevation = (continentShape * (1 / 2) + terrainDetail * (2 / 10)
                             + mountain * (3 / 10)) * 100
           in (Inr (elevation * (islandFactor * (7 / 10) + 3 / 10), moisture, riverValue),
               c5)))))))"

definition zero_terrain :: TerrainData where
  "zero_terrain = \<lparr>td_elevation = 0, td_moisture = 0, td_riverValue = 0, td_biome = DEEP_WATER\<rparr>"

text \<open>One turn of the inner loop of Pass 1, on the grid and the cache.\<close>

definition pass1_step ::
  "(int \<Rightarrow> int list \<Rightarrow> int list) \<Rightarrow> nat \<Rightarrow> nat \<Rightarrow> nat \<Rightarrow> nat
     \<Rightarrow> (gen_error + TerrainData list list) \<times> noise_cache
     \<Rightarrow> (gen_error + TerrainData list list) \<times> noise_cache" where
  "pass1_step shuffle W H y x st =
     (case st of
        (Inl e, c) \<Rightarrow> (Inl e, c)
      | (Inr t, c) \<Rightarrow>
          (case pass1_cell shuffle W H x y c of
             (Inl e, c') \<Rightarrow> (Inl e, c')
           | (Inr (elevation, moisture, riverValue), c') \<Rightarrow>
               (Inr (t[y := (t ! y)[x := (t ! y ! x)
                       \<lparr>td_elevation := elevation, td_moisture := moisture,
                        td_riverValue := riverValue\<rparr>]]),
                c')))"

definition pass1_row ::
  "(int \<Rightarrow> int list \<Rightarrow> int list) \<Rightarrow> nat \<Rightarrow> nat \<Rightarrow> nat
     \<Rightarrow> (gen_error + TerrainData list list) \<times> noise_cache
     \<Rightarrow> (gen_error + TerrainData list list) \<times> noise_cache" where
  "pass1_row shuffle W H y st0 = fold (pass1_step shuffle W H y) [0..<W] st0"

definition pass1 ::
  "(int \<Rightarrow> int list \<Rightarrow> int list) \<Rightarrow> nat \<Rightarrow> nat \<Rightarrow> noise_cache
     \<Rightarrow> (gen_error + TerrainData list list) \<times> noise_cache" where
  "pass1 shuffle W H c =
     fold (\<lambda>y st. pass1_row shuffle W H y st)
          [0..<H] (Inr (replicate H (replicate W zero_terrain)), c)"

text \<open>\<^verbatim>\<open>GenerateWorld\<close> itself takes no argument: the dimensions are the two constants.
  \<open>GenerateWorld_dims\<close> is its body with the two constants as arguments. Besides the
  grid, the call leaves the noise cache behind. The counting loop at the end of the
  source only prints and is left out.\<close>

definition GenerateWorld_dims ::
  "(int \<Rightarrow> int list \<Rightarrow> int list) \<Rightarrow> (nat \<Rightarrow> nat \<Rightarrow> nat \<Rightarrow> int) \<Rightarrow> nat \<Rightarrow> nat \<Rightarrow> noise_cache
     \<Rightarrow> (gen_error + Tile list list) \<times> noise_cache" where
  "GenerateWorld_dims shuffle variation W H c =
     (case pass1 shuffle W H c of
        (Inl e, c') \<Rightarrow> (Inl e, c')
      | (Inr terrainData, c') \<Rightarrow> (finish_world variation W H terrainData, c'))"

definition GenerateWorld ::
  "(int \<Rightarrow> int list \<Rightarrow> int list) \<Rightarrow> (nat \<Rightarrow> nat \<Rightarrow> nat \<Rightarrow> int) \<Rightarrow> noise_cache
     \<Rightarrow> (gen_error + Tile list list) \<times> noise_cache" where
  "GenerateWorld shuffle variation c =
     GenerateWorld_dims shuffle variation WORLD_WIDTH WORLD_HEIGHT c"

section \<open>Example data\<close>

definition cell :: "real \<Rightarrow> real \<Rightarrow> real \<Rightarrow> TerrainData" where
  "cell e m rv = \<lparr>td_elevation = e, td_moisture = m, td_riverValue = rv, td_biome = DEEP_WATER\<rparr>"

text \<open>A 3x3 field: a river cell, a borderline tributary cell, a wet basin, and land.\<close>

definition grid3 :: "TerrainData list list" where
  "grid3 =
     [[cell 50 (1 / 2) (9 / 10), cell 50 (1 / 2) (8 / 10), cell 22 (8 / 10) (1 / 10)],
      [cell 30 (1 / 2) (1 / 10), cell 40 (1 / 2) (1 / 10), cell 60 (1 / 2) (1 / 10)],
      [cell 10 (1 / 2) (1 / 10), cell 80 (1 / 2) (1 / 10), cell 25 (1 / 2) (1 / 10)]]"

text \<open>A 5x5 field of lowland cells; its cell \<open>(1, 1)\<close> is on no debug line.\<close>

definition grid5 :: "TerrainData list list" where
  "grid5 = replicate 5 (replicate 5 (cell 30 (1 / 2) (1 / 10)))"

definition variation3 :: "nat \<Rightarrow> nat \<Rightarrow> nat \<Rightarrow> int" where
  "variation3 x y k = 3"

section \<open>Properties\<close>

subsection \<open>In-place loops\<close>

lemma fold_update_length:
  assumes "\<And>k r. F k r = r[k := f k (r ! k)]"
  shows "length (fold F ks xs) = length xs"
  by (induction ks arbitrary: xs) (simp_all add: assms)

lemma fold_update_nth:
  assumes F: "\<And>k r. F k r = r[k := f k (r ! k)]"
    and "n \<le> length xs" and "i < length xs"
  shows "fold F [0..<n] xs ! i = (if i < n then f i (xs ! i) else xs ! i)"
  using assms(2,3)
proof (induction n arbitrary: i)
  case 0
  then show ?case by simp
next
  case (Suc n)
  let ?r = "fold F [0..<n] xs"
  have len: "length ?r = length xs" using F by (rule fold_update_length)
  have n: "n < length xs" using Suc.prems by simp
  have ih: "?r ! j = (if j < n then f j (xs ! j) else xs ! j)" if "j < length xs" for j
    using Suc.IH that n by simp
  have step: "fold F [0..<Suc n] xs = ?r[n := f n (?r ! n)]"
    by (simp add: F)
  show ?case
  proof (cases "i = n")
    case True
    then show ?thesis using len n ih [OF n] unfolding step by simp
  next
    case False
    then show ?thesis using len Suc.prems(2) ih [OF Suc.prems(2)] unfolding step by simp
  qed
qed

lemma grid_ok_row: "grid_ok W H t \<Longrightarrow> y < H \<Longrightarrow> length (t ! y) = W"
  by (simp add: grid_ok_def list_all_length)

lemma pass2_row_length: "length (pass2_row W row) = length row"
  unfolding pass2_row_def by (rule fold_update_length [where f = "\<lambda>_. carve_cell"]) simp

lemma pass2_row_nth:
  assumes "length row = W" and "x < W"
  shows "pass2_row W row ! x = carve_cell (row ! x)"
  unfolding pass2_row_def
  using fold_update_nth [where f = "\<lambda>_. carve_cell" and n = W and xs = row and i = x
      and F = "\<lambda>x r. r[x := carve_cell (r ! x)]"] assms
  by simp

lemma pass2_length: "length (pass2 W H t) = length t"
  unfolding pass2_def by (rule fold_update_length [where f = "\<lambda>_. pass2_row W"]) simp

lemma pass2_nth_row:
  assumes "length t = H" and "y < H"
  shows "pass2 W H t ! y = pass2_row W (t ! y)"
  unfolding pass2_def
  using fold_update_nth [where f = "\<lambda>_. pass2_row W" and n = H and xs = t and i = y
      and F = "\<lambda>y t. t[y := pass2_row W (t ! y)]"] assms
  by simp

lemma pass2_cell:
  assumes "grid_ok W H t" and "x < W" and "y < H"
  shows "pass2 W H t ! y ! x = carve_cell (t ! y ! x)"
proof -
  have "length t = H" using assms(1) by (simp add: grid_ok_def)
  then have "pass2 W H t ! y = pass2_row W (t ! y)" using assms(3) by (rule pass2_nth_row)
  moreover have "length (t ! y) = W" using assms(1,3) by (rule grid_ok_row)
  ultimately show ?thesis using assms(2) by (simp add: pass2_row_nth)
qed

lemma pass2_grid_ok: "grid_ok W H t \<Longrightarrow> grid_ok W H (pass2 W H t)"
  by (simp add: grid_ok_def list_all_length pass2_length pass2_nth_row pass2_row_length)

subsection \<open>Biome classification\<close>

text \<open>Claim C9. \<^verbatim>\<open>DetermineBiome\<close> is total (it is a function into the eight-valued
  \<^typ>\<open>BiomeType\<close>) and agrees with the threshold table of the specification on every
  pair of elevation and moisture: in the band from \<^verbatim>\<open>BEACH_LEVEL\<close> up to \<^verbatim>\<open>PLAINS_LEVEL\<close>
  it returns \<^verbatim>\<open>FOREST\<close> when the moisture is at least 0.6 and \<^verbatim>\<open>PLAINS\<close> otherwise, in the
  band from \<^verbatim>\<open>PLAINS_LEVEL\<close> up to \<^verbatim>\<open>HILLS_LEVEL\<close> it returns \<^verbatim>\<open>FOREST\<close> when the moisture
  is at least 0.4 and \<^verbatim>\<open>HILLS\<close> otherwise, and an elevation equal to a threshold falls
  into the band that starts there.\<close>

theorem DetermineBiome_threshold_table:
  "DetermineBiome e m = classifyBiome_spec e m
   \<and> (BEACH_LEVEL \<le> e \<and> e < PLAINS_LEVEL \<longrightarrow>
        DetermineBiome e m = (if m \<ge> 6 / 10 then FOREST else PLAINS))
   \<and> (PLAINS_LEVEL \<le> e \<and> e < HILLS_LEVEL \<longrightarrow>
        DetermineBiome e m = (if m \<ge> 4 / 10 then FOREST else HILLS))
   \<and> DetermineBiome (WATER_LEVEL - 5) m = SHALLOW_WATER
   \<and> DetermineBiome WATER_LEVEL m = BEACH
   \<and> DetermineBiome BEACH_LEVEL m = (if m \<ge> 6 / 10 then FOREST else PLAINS)
   \<and> DetermineBiome PLAINS_LEVEL m = (if m \<ge> 4 / 10 then FOREST else HILLS)
   \<and> DetermineBiome HILLS_LEVEL m = MOUNTAINS
   \<and> DetermineBiome MOUNTAIN_LEVEL m = SNOW_CAPS"
  by (simp add: DetermineBiome_def classifyBiome_spec_def level_defs)

theorem DetermineBiome_threshold_table_witness:
  "BEACH_LEVEL \<le> 30 \<and> 30 < PLAINS_LEVEL \<and> DetermineBiome 30 (6 / 10) = FOREST
   \<and> DetermineBiome 30 (3 / 10) = PLAINS
   \<and> PLAINS_LEVEL \<le> 40 \<and> 40 < HILLS_LEVEL \<and> DetermineBiome 40 (4 / 10) = FOREST
   \<and> DetermineBiome 40 (39 / 100) = HILLS"
  using DetermineBiome_threshold_table [of 30 "6 / 10", THEN conjunct2]
    DetermineBiome_threshold_table [of 30 "3 / 10", THEN conjunct2]
    DetermineBiome_threshold_table [of 40 "4 / 10", THEN conjunct2]
    DetermineBiome_threshold_table [of 40 "39 / 100", THEN conjunct2]
  by (simp add: level_defs)

subsection \<open>Pass 2\<close>

lemma carve_river_le: "td_elevation (carve_river d) \<le> td_elevation d"
  by (simp add: carve_river_def Let_def std_min_def)

lemma carve_lake_le: "td_elevation (carve_lake d) \<le> td_elevation d"
  by (simp add: carve_lake_def std_min_def)

lemma carve_cell_le: "td_elevation (carve_cell d) \<le> td_elevation d"
  unfolding carve_cell_def using carve_lake_le [of "carve_river d"] carve_river_le [of d] by simp

text \<open>The tributary clamp can never run: its test asks for a river value at most
  \<^verbatim>\<open>RIVER_THRESHOLD\<close> inside the branch where the river value exceeds it.\<close>

lemma carve_river_tributary_dead:
  "carve_river d =
     (if td_riverValue d > RIVER_THRESHOLD
      then d\<lparr>td_elevation := std_min (td_elevation d)
               (WATER_LEVEL - (td_riverValue d - RIVER_THRESHOLD) / (1 - RIVER_THRESHOLD) * 5)\<rparr>
      else d)"
  by (simp add: carve_river_def Let_def)

lemma grid3_ok: "grid_ok 3 3 grid3"
  by (simp add: grid_ok_def grid3_def)

text \<open>Claim C8. Pass 2 never raises an elevation: every cell of the grid leaves the pass
  with an elevation at most the one it entered with, and so does each of the two steps
  of the loop body, the river carving (with its tributary clamp) and the lake clamp.\<close>

theorem pass2_monotone:
  assumes "grid_ok W H t" and "x < W" and "y < H"
  shows "td_elevation (pass2 W H t ! y ! x) \<le> td_elevation (t ! y ! x)
         \<and> td_elevation (carve_river (t ! y ! x)) \<le> td_elevation (t ! y ! x)
         \<and> td_elevation (carve_lake (carve_river (t ! y ! x)))
             \<le> td_elevation (carve_river (t ! y ! x))"
  using assms by (simp add: pass2_cell carve_cell_le carve_river_le carve_lake_le)

theorem pass2_monotone_witness:
  "grid_ok 3 3 grid3 \<and> (0::nat) < 3 \<and> td_elevation (grid3 ! 0 ! 0) = 50
     \<and> td_elevation (pass2 3 3 grid3 ! 0 ! 0) \<le> 50"
  using pass2_monotone [of 3 3 grid3 0 0] grid3_ok by (simp add: grid3_def cell_def)

text \<open>Claim C1. A cell whose river value lies in the tributary band
  \<open>(RIVER_THRESHOLD - 0.1, RIVER_THRESHOLD]\<close> should leave Pass 2 with an elevation of at
  most \<open>WATER_LEVEL - 1\<close>. The code does not do that: the cell in row 0, column 1 of
  \<open>grid3\<close> has river value 0.8 and elevation 50, and leaves Pass 2 with elevation 50.\<close>

theorem tributary_band_not_clamped:
  "RIVER_THRESHOLD - 1 / 10 < td_riverValue (grid3 ! 0 ! 1)
     \<and> td_riverValue (grid3 ! 0 ! 1) \<le> RIVER_THRESHOLD
     \<and> td_elevation (pass2 3 3 grid3 ! 0 ! 1) = 50
     \<and> \<not> td_elevation (pass2 3 3 grid3 ! 0 ! 1) \<le> WATER_LEVEL - 1"
  by (simp add: pass2_cell grid3_ok)
     (simp add: grid3_def cell_def carve_cell_def carve_river_def carve_lake_def level_defs)

subsection \<open>Pass 3\<close>

lemma fold_update2_inner:
  assumes F: "\<And>x s. F x s = s[y := (s ! y)[x := g x (s ! y ! x)]]"
  shows "fold F xs s = s[y := fold (\<lambda>x r. r[x := g x (r ! x)]) xs (s ! y)]"
proof (cases "y < length s")
  case True
  then show ?thesis
    by (induction xs arbitrary: s) (simp_all add: F)
next
  case False
  then have "fold F xs s = s"
    by (induction xs arbitrary: s) (simp_all add: F list_update_beyond not_less)
  then show ?thesis using False by (simp add: list_update_beyond not_less)
qed

lemma fold_update2_cell:
  assumes F: "\<And>y x s. F y x s = s[y := (s ! y)[x := g x y (s ! y ! x)]]"
    and ok: "grid_ok W H s" and x: "x < W" and y: "y < H"
  shows "fold (\<lambda>y s. fold (F y) [0..<W] s) [0..<H] s ! y ! x = g x y (s ! y ! x)"
proof -
  let ?R = "\<lambda>y r. fold (\<lambda>x r. r[x := g x y (r ! x)]) [0..<W] r"
  have outer: "fold (F y) [0..<W] s = s[y := ?R y (s ! y)]" for y s
    by (rule fold_update2_inner) (rule F)
  have len: "length s = H" using ok by (simp add: grid_ok_def)
  have "fold (\<lambda>y s. fold (F y) [0..<W] s) [0..<H] s ! y = ?R y (s ! y)"
    using fold_update_nth [where F = "\<lambda>y s. fold (F y) [0..<W] s" and f = ?R
        and n = H and xs = s and i = y] outer len y by simp
  moreover have "?R y (s ! y) ! x = g x y (s ! y ! x)"
    using fold_update_nth [where F = "\<lambda>x r. r[x := g x y (r ! x)]" and f = "\<lambda>x. g x y"
        and n = W and xs = "s ! y" and i = x] grid_ok_row [OF ok y] x by simp
  ultimately show ?thesis by simp
qed

lemma fold_update2_grid_ok:
  assumes F: "\<And>y x s. F y x s = s[y := (s ! y)[x := g x y (s ! y ! x)]]"
    and ok: "grid_ok W H s"
  shows "grid_ok W H (fold (\<lambda>y s. fold (F y) [0..<W] s) [0..<H] s)"
proof -
  let ?R = "\<lambda>y r. fold (\<lambda>x r. r[x := g x y (r ! x)]) [0..<W] r"
  have outer: "fold (F y) [0..<W] s = s[y := ?R y (s ! y)]" for y s
    by (rule fold_update2_inner) (rule F)
  have len: "length s = H" using ok by (simp add: grid_ok_def)
  have lenR: "length (?R y r) = length r" for y r
    by (rule fold_update_length [where f = "\<lambda>x. g x y"]) simp
  have l2: "length (fold (\<lambda>y s. fold (F y) [0..<W] s) [0..<H] s) = H"
    using fold_update_length [where F = "\<lambda>y s. fold (F y) [0..<W] s" and f = ?R
        and ks = "[0..<H]" and xs = s] outer len by simp
  have "fold (\<lambda>y s. fold (F y) [0..<W] s) [0..<H] s ! y = ?R y (s ! y)" if "y < H" for y
    using fold_update_nth [where F = "\<lambda>y s. fold (F y) [0..<W] s" and f = ?R
        and n = H and xs = s and i = y] outer len that by simp
  then show ?thesis
    using l2 ok by (simp add: grid_ok_def list_all_length lenR)
qed

lemma replicate_grid_ok: "grid_ok W H (replicate H (replicate W v))"
  by (simp add: grid_ok_def list_all_length)

lemma smooth_all_cell:
  assumes "x < W" and "y < H"
  shows "smooth_all W H t ! y ! x = smooth_cell W H t x y"
  unfolding smooth_all_def
  by (rule fold_update2_cell [where g = "\<lambda>x y _. smooth_cell W H t x y"])
     (simp_all add: replicate_grid_ok assms)

lemma copy_back_cell:
  assumes "grid_ok W H t" and "x < W" and "y < H"
  shows "copy_back W H sm t ! y ! x = (t ! y ! x)\<lparr>td_elevation := sm ! y ! x\<rparr>"
  unfolding copy_back_def
  by (rule fold_update2_cell [where g = "\<lambda>x y d. d\<lparr>td_elevation := sm ! y ! x\<rparr>"])
     (simp_all add: assms)

lemma copy_back_grid_ok:
  assumes "grid_ok W H t"
  shows "grid_ok W H (copy_back W H sm t)"
  unfolding copy_back_def
  by (rule fold_update2_grid_ok [where g = "\<lambda>x y d. d\<lparr>td_elevation := sm ! y ! x\<rparr>"])
     (simp_all add: assms)

lemma pass3_cell:
  assumes "grid_ok W H t" and "x < W" and "y < H"
  shows "pass3 W H t ! y ! x = (t ! y ! x)\<lparr>td_elevation := smooth_cell W H t x y\<rparr>"
  using assms by (simp add: pass3_def copy_back_cell smooth_all_cell)

lemma pass3_grid_ok: "grid_ok W H t \<Longrightarrow> grid_ok W H (pass3 W H t)"
  by (simp add: pass3_def copy_back_grid_ok)

lemma fold_total_count:
  "fold (\<lambda>k (total, count). (total + h k, count + 1)) ks (t0 :: real, c0 :: int)
     = (t0 + sum_list (map h ks), c0 + int (length ks))"
  by (induction ks arbitrary: t0 c0) (simp_all add: add.assoc)

lemma fold_total_count2:
  "fold (\<lambda>ny acc. fold (\<lambda>nx (total, count). (total + h ny nx, count + 1)) xs acc)
        ys (t0 :: real, c0 :: int)
     = (t0 + sum_list (map (\<lambda>ny. sum_list (map (h ny) xs)) ys),
        c0 + int (length xs) * int (length ys))"
proof (induction ys arbitrary: t0 c0)
  case Nil
  then show ?case by simp
next
  case (Cons a ys)
  show ?case
    by (simp add: fold_total_count Cons.IH add.assoc distrib_left)
qed

lemma sum_list_upto: "sum_list (map f [i..j]) = sum f {i..j}"
  by (simp add: sum_list_distinct_conv_sum_set)

lemma lo_bound: "max 0 (int x - 1) = int (x - 1)"
  by (cases x) simp_all

lemma hi_bound: "x < W \<Longrightarrow> min (int W - 1) (int x + 1) = int (min (W - 1) (x + 1))"
  by (cases W) simp_all

lemma sum_int_range: "sum f {int a..int b} = sum (\<lambda>k. f (int k)) {a..b}"
proof -
  have "{int a..int b} = int ` {a..b}" by (simp add: image_int_atLeastAtMost)
  then show ?thesis by (simp add: sum.reindex)
qed

lemma nbhd_product:
  assumes "x < W" and "y < H"
  shows "nbhd W H x y = {x - 1..min (W - 1) (x + 1)} \<times> {y - 1..min (H - 1) (y + 1)}"
  using assms by (auto simp: nbhd_def)

lemma length_range:
  assumes "x < W"
  shows "int (length [max 0 (int x - 1)..min (int W - 1) (int x + 1)])
           = int (card {x - 1..min (W - 1) (x + 1)})"
  unfolding lo_bound hi_bound [OF assms] using assms by (simp add: min_def)

lemma neighbour_total_eq:
  assumes "x < W" and "y < H"
  shows "neighbour_total W H t x y
           = (\<Sum>(nx, ny)\<in>nbhd W H x y. td_elevation (t ! ny ! nx), int (card (nbhd W H x y)))"
proof -
  let ?A = "{x - 1..min (W - 1) (x + 1)}" and ?B = "{y - 1..min (H - 1) (y + 1)}"
  let ?e = "\<lambda>nx ny. td_elevation (t ! ny ! nx)"
  let ?lx = "int (length [max 0 (int x - 1)..min (int W - 1) (int x + 1)])"
  let ?ly = "int (length [max 0 (int y - 1)..min (int H - 1) (int y + 1)])"
  have total: "fst (neighbour_total W H t x y) = (\<Sum>ny\<in>?B. \<Sum>nx\<in>?A. ?e nx ny)"
    unfolding neighbour_total_def fold_total_count2
    by (simp add: sum_list_upto lo_bound hi_bound [OF assms(1)] hi_bound [OF assms(2)]
        sum_int_range)
  have count: "snd (neighbour_total W H t x y) = ?lx * ?ly"
    unfolding neighbour_total_def fold_total_count2 by simp
  have "(\<Sum>ny\<in>?B. \<Sum>nx\<in>?A. ?e nx ny) = (\<Sum>nx\<in>?A. \<Sum>ny\<in>?B. ?e nx ny)"
    by (rule sum.swap)
  also have "\<dots> = (\<Sum>(nx, ny)\<in>?A \<times> ?B. ?e nx ny)"
    by (rule sum.cartesian_product)
  finally have total': "fst (neighbour_total W H t x y) = (\<Sum>(nx, ny)\<in>nbhd W H x y. ?e nx ny)"
    unfolding total nbhd_product [OF assms] .
  have "?lx * ?ly = int (card ?A) * int (card ?B)"
    by (simp only: length_range [OF assms(1)] length_range [OF assms(2)])
  also have "\<dots> = int (card (?A \<times> ?B))"
    by (simp only: card_cartesian_product of_nat_mult)
  finally have count': "snd (neighbour_total W H t x y) = int (card (nbhd W H x y))"
    unfolding count nbhd_product [OF assms] .
  show ?thesis
    using total' count' by (simp only: prod_eq_iff fst_conv snd_conv)
qed

lemma card_range:
  assumes "(x::nat) < W" and "2 \<le> W"
  shows "card {x - 1..min (W - 1) (x + 1)} = (if x = 0 \<or> x = W - 1 then 2 else 3 :: nat)"
  using assms by (simp add: min_def) linarith

lemma card_nbhd:
  assumes "x < W" and "y < H" and "2 \<le> W" and "2 \<le> H"
  shows "card (nbhd W H x y)
           = (if (x = 0 \<or> x = W - 1) \<and> (y = 0 \<or> y = H - 1) then 4
              else if x = 0 \<or> x = W - 1 \<or> y = 0 \<or> y = H - 1 then 6 else 9)"
  using assms by (simp only: nbhd_product card_cartesian_product card_range) simp

lemma card_nbhd_pos: "x < W \<Longrightarrow> y < H \<Longrightarrow> 0 < card (nbhd W H x y)"
  by (auto simp: nbhd_product card_cartesian_product min_def)

text \<open>Claim C7. Pass 3 computes every new elevation from the grid as it was before the
  pass: a cell whose elevation is at most \<^verbatim>\<open>WATER_LEVEL\<close> keeps it, and every other cell
  gets 0.7 times the mean elevation of its 3x3 neighbourhood cut to the grid, taken in
  the old grid, plus 0.3 times its own old elevation. On a grid of at least two rows and
  two columns the neighbourhood has 9 cells in the interior, 6 on an edge and 4 in a
  corner.\<close>

theorem pass3_smoothing:
  assumes "grid_ok W H t" and "x < W" and "y < H"
  shows "td_elevation (pass3 W H t ! y ! x)
           = (if td_elevation (t ! y ! x) \<le> WATER_LEVEL then td_elevation (t ! y ! x)
              else 7 / 10 * ((\<Sum>(nx, ny)\<in>nbhd W H x y. td_elevation (t ! ny ! nx))
                               / real (card (nbhd W H x y)))
                   + 3 / 10 * td_elevation (t ! y ! x))
         \<and> (2 \<le> W \<and> 2 \<le> H \<longrightarrow>
              card (nbhd W H x y)
                = (if (x = 0 \<or> x = W - 1) \<and> (y = 0 \<or> y = H - 1) then 4
                   else if x = 0 \<or> x = W - 1 \<or> y = 0 \<or> y = H - 1 then 6 else 9))"
  using assms
  by (simp add: pass3_cell smooth_cell_def neighbour_total_eq card_nbhd)

lemma neighbour_total_grid3_11: "neighbour_total 3 3 grid3 1 1 = (367, 9)"
  by (simp add: neighbour_total_def grid3_def cell_def upto.simps)

lemma smooth_cell_grid3_11: "smooth_cell 3 3 grid3 1 1 = 3649 / 90"
  unfolding smooth_cell_def neighbour_total_grid3_11 by (simp add: grid3_def cell_def level_defs)

lemma pass3_grid3_11: "td_elevation (pass3 3 3 grid3 ! 1 ! 1) = 3649 / 90"
proof -
  have "pass3 3 3 grid3 ! 1 ! 1 = (grid3 ! 1 ! 1)\<lparr>td_elevation := smooth_cell 3 3 grid3 1 1\<rparr>"
    by (rule pass3_cell [OF grid3_ok]) simp_all
  then show ?thesis by (simp only: smooth_cell_grid3_11) simp
qed

theorem pass3_smoothing_witness:
  "grid_ok 3 3 grid3 \<and> (1::nat) < 3 \<and> \<not> td_elevation (grid3 ! 1 ! 1) \<le> WATER_LEVEL
   \<and> 7 / 10 * ((\<Sum>(nx, ny)\<in>nbhd 3 3 1 1. td_elevation (grid3 ! ny ! nx))
                   / real (card (nbhd 3 3 1 1)))
        + 3 / 10 * td_elevation (grid3 ! 1 ! 1) = 3649 / 90
   \<and> card (nbhd 3 3 1 1) = 9
   \<and> td_elevation (grid3 ! 2 ! 0) \<le> WATER_LEVEL
   \<and> td_elevation (pass3 3 3 grid3 ! 2 ! 0) = td_elevation (grid3 ! 2 ! 0)
   \<and> card (nbhd 3 3 0 2) = 4"
proof -
  have w: "\<not> td_elevation (grid3 ! 1 ! 1) \<le> WATER_LEVEL" "td_elevation (grid3 ! 2 ! 0) \<le> WATER_LEVEL"
    by (simp_all add: grid3_def cell_def level_defs)
  show ?thesis
    using pass3_smoothing [of 3 3 grid3 1 1] pass3_smoothing [of 3 3 grid3 0 2]
      grid3_ok w pass3_grid3_11
    by simp
qed

subsection \<open>Pass 4\<close>

lemma biome_props_total:
  "\<exists>props. map_at CreateBiomeProperties b = Inr props"
  by (cases b) (simp_all add: map_at_def CreateBiomeProperties_def)

lemma biome_props_walkable:
  assumes "map_at CreateBiomeProperties b = Inr props"
  shows "bp_walkable props = (b \<in> {BEACH, PLAINS, FOREST, HILLS})"
  using assms by (cases b) (auto simp: map_at_def CreateBiomeProperties_def mkProps_def)

lemma finalize_cell_ok:
  "\<exists>tile. finalize_cell variation W H CreateBiomeProperties x y d = Inr tile"
  using biome_props_total [of "DetermineBiome (td_elevation d) (td_moisture d)"]
  by (auto simp: finalize_cell_def Let_def)

lemma fold_sum_ok:
  assumes "\<And>k w. F k (Inr w) = Inr (G k w)"
  shows "fold F ks (Inr w) = Inr (fold G ks w)"
  by (induction ks arbitrary: w) (simp_all add: assms)

lemma finalize_cell_projr:
  "finalize_cell variation W H CreateBiomeProperties x y d
     = Inr (projr (finalize_cell variation W H CreateBiomeProperties x y d))"
proof -
  obtain tile where "finalize_cell variation W H CreateBiomeProperties x y d = Inr tile"
    using finalize_cell_ok by blast
  then show ?thesis by simp
qed

lemma pass4_unfold:
  "pass4 variation W H CreateBiomeProperties t
     = Inr (fold (\<lambda>y w. fold (\<lambda>x w. w[y := (w ! y)[x :=
                     projr (finalize_cell variation W H CreateBiomeProperties x y (t ! y ! x))]])
                   [0..<W] w)
                 [0..<H] (replicate H (replicate W default_tile)))"
proof -
  let ?tl = "\<lambda>x y. projr (finalize_cell variation W H CreateBiomeProperties x y (t ! y ! x))"
  have row: "pass4_row variation W H CreateBiomeProperties t y (Inr w)
               = Inr (fold (\<lambda>x w. w[y := (w ! y)[x := ?tl x y]]) [0..<W] w)" for y w
    unfolding pass4_row_def
  proof (rule fold_sum_ok)
    fix k w
    obtain tile where tile: "finalize_cell variation W H CreateBiomeProperties k y (t ! y ! k) = Inr tile"
      using finalize_cell_ok by blast
    show "(case Inr w of
             Inl e \<Rightarrow> Inl e
           | Inr world \<Rightarrow>
               (case finalize_cell variation W H CreateBiomeProperties k y (t ! y ! k) of
                  Inl e \<Rightarrow> Inl e
                | Inr tile \<Rightarrow> Inr (world[y := (world ! y)[k := tile]])))
          = Inr (w[y := (w ! y)[k := ?tl k y]])"
      by (simp add: tile)
  qed
  show ?thesis
    unfolding pass4_def by (rule fold_sum_ok) (rule row)
qed

lemma pass4_cell:
  assumes "x < W" and "y < H"
  shows "\<exists>world. pass4 variation W H CreateBiomeProperties t = Inr world
           \<and> grid_ok W H world
           \<and> finalize_cell variation W H CreateBiomeProperties x y (t ! y ! x)
               = Inr (world ! y ! x)"
proof -
  let ?tl = "\<lambda>x y. projr (finalize_cell variation W H CreateBiomeProperties x y (t ! y ! x))"
  let ?w = "fold (\<lambda>y w. fold (\<lambda>x w. w[y := (w ! y)[x := ?tl x y]]) [0..<W] w)
                       [0..<H] (replicate H (replicate W default_tile))"
  have 1: "pass4 variation W H CreateBiomeProperties t = Inr ?w"
    by (rule pass4_unfold)
  have 2: "?w ! y ! x = ?tl x y"
    by (rule fold_update2_cell [where g = "\<lambda>x y _. ?tl x y"])
       (simp_all add: replicate_grid_ok assms)
  have 3: "grid_ok W H ?w"
    by (rule fold_update2_grid_ok [where g = "\<lambda>x y _. ?tl x y"])
       (simp_all add: replicate_grid_ok)
  have 4: "finalize_cell variation W H CreateBiomeProperties x y (t ! y ! x) = Inr (?tl x y)"
    by (rule finalize_cell_projr)
  show ?thesis using 1 2 3 4 by simp
qed

lemma uint_clamp_byte: "uint (word_of_int (std_clamp v 0 255) :: 8 word) = std_clamp v 0 255"
  by (simp add: std_clamp_def uint_word_of_int take_bit_eq_mod)

lemma tile_colour_jitter:
  assumes "\<forall>k<3. - 5 \<le> variation x y k \<and> variation x y k \<le> 5"
    and "(int x + int y) mod 10 \<noteq> 0"
    and "\<not> (int x = 0 \<or> int y = 0 \<or> int x = int W - 1 \<or> int y = int H - 1)"
    and "\<not> (int x = int W div 2 \<or> int y = int H div 2)"
  shows "jitter_colour_spec (bp_baseColor props) (tile_colour variation W H props x y)
         \<and> col_a (tile_colour variation W H props x y) = 255"
proof -
  have c: "tile_colour variation W H props x y = mkColor
        (word_of_int (std_clamp (uint (col_r (bp_baseColor props)) + variation x y 0) 0 255))
        (word_of_int (std_clamp (uint (col_g (bp_baseColor props)) + variation x y 1) 0 255))
        (word_of_int (std_clamp (uint (col_b (bp_baseColor props)) + variation x y 2) 0 255))
        255"
    using assms(2-4) by (simp add: tile_colour_def)
  have v: "variation x y 0 \<in> {- 5..5}" "variation x y 1 \<in> {- 5..5}" "variation x y 2 \<in> {- 5..5}"
    using assms(1) by simp_all
  show ?thesis
    unfolding c jitter_colour_spec_def
    using v by (auto simp: mkColor_def uint_clamp_byte)
qed

text \<open>Claim C5, as amended. Pass 4 always returns a grid. In it a cell \<open>(x, y)\<close> with
  \<open>(x + y) mod 10 = 0\<close> is red, any other cell of the border is yellow, any other cell of
  the middle column or the middle row is blue, and only the remaining cells get the base
  colour of their biome plus the jitter of the three draws, each between -5 and 5, every
  channel clamped to 0..255, with alpha 255.\<close>

theorem pass4_colour:
  assumes "grid_ok W H t" and "x < W" and "y < H"
    and "\<forall>k<3. - 5 \<le> variation x y k \<and> variation x y k \<le> 5"
  shows "\<exists>world props.
           pass4 variation W H CreateBiomeProperties t = Inr world
           \<and> map_at CreateBiomeProperties
                (DetermineBiome (td_elevation (t ! y ! x)) (td_moisture (t ! y ! x))) = Inr props
           \<and> (if (int x + int y) mod 10 = 0
                then tile_color (world ! y ! x) = mkColor 255 0 0 255
              else if int x = 0 \<or> int y = 0 \<or> int x = int W - 1 \<or> int y = int H - 1
                then tile_color (world ! y ! x) = mkColor 255 255 0 255
              else if int x = int W div 2 \<or> int y = int H div 2
                then tile_color (world ! y ! x) = mkColor 0 0 255 255
              else jitter_colour_spec (bp_baseColor props) (tile_color (world ! y ! x))
                   \<and> col_a (tile_color (world ! y ! x)) = 255)"
proof -
  obtain world where w: "pass4 variation W H CreateBiomeProperties t = Inr world"
    and c: "finalize_cell variation W H CreateBiomeProperties x y (t ! y ! x) = Inr (world ! y ! x)"
    using pass4_cell [OF assms(2,3)] by blast
  obtain props where p: "map_at CreateBiomeProperties
                (DetermineBiome (td_elevation (t ! y ! x)) (td_moisture (t ! y ! x))) = Inr props"
    using biome_props_total by blast
  have "world ! y ! x = \<lparr>tile_x = int x, tile_y = int y,
                  tile_elevation = trunc_int (td_elevation (t ! y ! x)),
                  tile_color = tile_colour variation W H props x y,
                  tile_walkable = bp_walkable props\<rparr>"
    using c p by (simp add: finalize_cell_def Let_def)
  then have col: "tile_color (world ! y ! x) = tile_colour variation W H props x y"
    by simp
  have "if (int x + int y) mod 10 = 0
                then tile_color (world ! y ! x) = mkColor 255 0 0 255
              else if int x = 0 \<or> int y = 0 \<or> int x = int W - 1 \<or> int y = int H - 1
                then tile_color (world ! y ! x) = mkColor 255 255 0 255
              else if int x = int W div 2 \<or> int y = int H div 2
                then tile_color (world ! y ! x) = mkColor 0 0 255 255
              else jitter_colour_spec (bp_baseColor props) (tile_color (world ! y ! x))
                   \<and> col_a (tile_color (world ! y ! x)) = 255"
  proof (cases "(int x + int y) mod 10 = 0 \<or> (int x = 0 \<or> int y = 0 \<or> int x = int W - 1 \<or> int y = int H - 1) \<or> (int x = int W div 2 \<or> int y = int H div 2)")
    case True
    then show ?thesis unfolding col by (auto simp: tile_colour_def)
  next
    case False
    then show ?thesis unfolding col
      using tile_colour_jitter [of variation x y W H props] assms(4) by simp
  qed
  then show ?thesis using w p by blast
qed

lemma grid5_ok: "grid_ok 5 5 grid5"
  by (simp add: grid_ok_def grid5_def list_all_length)

lemma grid5_cell: "x < 5 \<Longrightarrow> y < 5 \<Longrightarrow> grid5 ! y ! x = cell 30 (1 / 2) (1 / 10)"
  by (simp add: grid5_def)

lemma grid5_tile_11:
  "finalize_cell variation3 5 5 CreateBiomeProperties 1 1 (grid5 ! 1 ! 1)
     = Inr \<lparr>tile_x = 1, tile_y = 1, tile_elevation = 30,
            tile_color = mkColor 103 213 103 255, tile_walkable = True\<rparr>"
  by (simp add: grid5_cell cell_def finalize_cell_def DetermineBiome_def level_defs map_at_def
      CreateBiomeProperties_def mkProps_def tile_colour_def mkColor_def variation3_def
      std_clamp_def trunc_int_def)

theorem pass4_colour_witness:
  "grid_ok 5 5 grid5 \<and> (1::nat) < 5
   \<and> - 5 \<le> variation3 1 1 0 \<and> variation3 1 1 0 \<le> 5
   \<and> - 5 \<le> variation3 1 1 1 \<and> variation3 1 1 1 \<le> 5
   \<and> - 5 \<le> variation3 1 1 2 \<and> variation3 1 1 2 \<le> 5
   \<and> \<not> isl (pass4 variation3 5 5 CreateBiomeProperties grid5)
   \<and> tile_color (projr (pass4 variation3 5 5 CreateBiomeProperties grid5) ! 1 ! 1)
       = mkColor 103 213 103 255
   \<and> col_a (tile_color (projr (pass4 variation3 5 5 CreateBiomeProperties grid5) ! 1 ! 1)) = 255"
proof -
  have v: "\<forall>k<3. - 5 \<le> variation3 1 1 k \<and> variation3 1 1 k \<le> 5"
    by (simp add: variation3_def)
  obtain world where w: "pass4 variation3 5 5 CreateBiomeProperties grid5 = Inr world"
    and c: "finalize_cell variation3 5 5 CreateBiomeProperties 1 1 (grid5 ! 1 ! 1)
              = Inr (world ! 1 ! 1)"
    using pass4_cell [of 1 5 1 5 variation3 grid5] by auto
  have "world ! 1 ! 1 = \<lparr>tile_x = 1, tile_y = 1, tile_elevation = 30,
            tile_color = mkColor 103 213 103 255, tile_walkable = True\<rparr>"
    using c unfolding grid5_tile_11 by auto
  then have col: "tile_color (world ! 1 ! 1) = mkColor 103 213 103 255"
    by simp
  show ?thesis
    using pass4_colour [of 5 5 grid5 1 1 variation3] v w col
    by (auto simp: grid5_ok variation3_def)
qed

text \<open>Claim C5, as stated, fails: the cell \<open>(0, 0)\<close> of \<open>grid3\<close> is a mountain cell, whose
  base colour is \<open>(150, 140, 130)\<close>, and Pass 4 paints it \<open>(255, 0, 0)\<close>, which is no
  jitter of the base colour.\<close>

theorem pass4_debug_colour_counterexample:
  "\<not> isl (pass4 variation3 3 3 CreateBiomeProperties grid3)
   \<and> tile_color (projr (pass4 variation3 3 3 CreateBiomeProperties grid3) ! 0 ! 0)
       = mkColor 255 0 0 255
   \<and> map_at CreateBiomeProperties
        (DetermineBiome (td_elevation (grid3 ! 0 ! 0)) (td_moisture (grid3 ! 0 ! 0)))
       = Inr (mkProps (mkColor 150 140 130 255) (15 / 10) (8 / 10) False)
   \<and> \<not> jitter_colour_spec (mkColor 150 140 130 255) (mkColor 255 0 0 255)"
proof -
  obtain world where w: "pass4 variation3 3 3 CreateBiomeProperties grid3 = Inr world"
    and c: "finalize_cell variation3 3 3 CreateBiomeProperties 0 0 (grid3 ! 0 ! 0)
              = Inr (world ! 0 ! 0)"
    using pass4_cell [of 0 3 0 3 variation3 grid3] by auto
  have b: "DetermineBiome (td_elevation (grid3 ! 0 ! 0)) (td_moisture (grid3 ! 0 ! 0)) = MOUNTAINS"
    by (simp add: grid3_def cell_def DetermineBiome_def level_defs)
  have m: "map_at CreateBiomeProperties MOUNTAINS
             = Inr (mkProps (mkColor 150 140 130 255) (15 / 10) (8 / 10) False)"
    by (simp add: map_at_def CreateBiomeProperties_def)
  have "tile_color (world ! 0 ! 0) = mkColor 255 0 0 255"
    using c [symmetric] by (simp add: finalize_cell_def Let_def b m tile_colour_def)
  moreover have "\<not> jitter_colour_spec (mkColor 150 140 130 255) (mkColor 255 0 0 255)"
    by (auto simp: jitter_colour_spec_def mkColor_def std_clamp_def)
  ultimately show ?thesis using w b m by simp
qed

lemma river_strength_pos:
  "rv > RIVER_THRESHOLD \<Longrightarrow> 0 < (rv - RIVER_THRESHOLD) / (1 - RIVER_THRESHOLD)"
  by (simp add: RIVER_THRESHOLD_def)

lemma carve_cell_river:
  assumes "td_riverValue d > RIVER_THRESHOLD"
  shows "td_elevation (carve_cell d)
           \<le> WATER_LEVEL - (td_riverValue d - RIVER_THRESHOLD) / (1 - RIVER_THRESHOLD) * 5"
proof -
  have "td_elevation (carve_river d)
          \<le> WATER_LEVEL - (td_riverValue d - RIVER_THRESHOLD) / (1 - RIVER_THRESHOLD) * 5"
    using assms by (simp add: carve_river_def Let_def std_min_def)
  then show ?thesis
    unfolding carve_cell_def using carve_lake_le [of "carve_river d"] by linarith
qed

lemma smooth_cell_water:
  "td_elevation (t ! y ! x) \<le> WATER_LEVEL \<Longrightarrow> smooth_cell W H t x y = td_elevation (t ! y ! x)"
  by (simp add: smooth_cell_def split: prod.split)

lemma DetermineBiome_water:
  "e < WATER_LEVEL \<Longrightarrow> DetermineBiome e m \<in> {DEEP_WATER, SHALLOW_WATER}"
  by (simp add: DetermineBiome_def)

lemma trunc_int_less: "e < WATER_LEVEL \<Longrightarrow> trunc_int e < 20"
  unfolding trunc_int_def WATER_LEVEL_def by (simp split: if_splits)

text \<open>Claim C10. Whatever grid \<open>t1\<close> the first pass produced, a cell whose river value
  exceeds \<^verbatim>\<open>RIVER_THRESHOLD\<close> leaves Pass 2 at or below \<^verbatim>\<open>WATER_LEVEL\<close> minus five times a
  positive strength, Pass 3 does not change it, so its final elevation is strictly below
  \<^verbatim>\<open>WATER_LEVEL\<close>; it is classified \<^verbatim>\<open>DEEP_WATER\<close> or \<^verbatim>\<open>SHALLOW_WATER\<close>, and its tile is not
  walkable in the grid that passes 2 to 4 make of \<open>t1\<close>, which is the grid that
  \<^verbatim>\<open>GenerateWorld\<close> returns when \<open>t1\<close> is what its first pass produced.\<close>

theorem river_cells_are_water:
  assumes "grid_ok W H t1" and "x < W" and "y < H"
    and "td_riverValue (t1 ! y ! x) > RIVER_THRESHOLD"
  shows "\<exists>world.
           finish_world variation W H t1 = Inr world
           \<and> (\<forall>shuffle c c'. pass1 shuffle W H c = (Inr t1, c') \<longrightarrow>
                  GenerateWorld_dims shuffle variation W H c = (Inr world, c'))
           \<and> 0 < (td_riverValue (t1 ! y ! x) - RIVER_THRESHOLD) / (1 - RIVER_THRESHOLD)
           \<and> td_elevation (pass2 W H t1 ! y ! x)
               \<le> WATER_LEVEL
                   - (td_riverValue (t1 ! y ! x) - RIVER_THRESHOLD) / (1 - RIVER_THRESHOLD) * 5
           \<and> td_elevation (pass3 W H (pass2 W H t1) ! y ! x)
               = td_elevation (pass2 W H t1 ! y ! x)
           \<and> td_elevation (pass3 W H (pass2 W H t1) ! y ! x) < WATER_LEVEL
           \<and> DetermineBiome (td_elevation (pass3 W H (pass2 W H t1) ! y ! x))
                             (td_moisture (pass3 W H (pass2 W H t1) ! y ! x))
               \<in> {DEEP_WATER, SHALLOW_WATER}
           \<and> tile_elevation (world ! y ! x) < 20
           \<and> \<not> tile_walkable (world ! y ! x)"
proof -
  let ?t2 = "pass2 W H t1" and ?t3 = "pass3 W H (pass2 W H t1)"
  let ?s = "(td_riverValue (t1 ! y ! x) - RIVER_THRESHOLD) / (1 - RIVER_THRESHOLD)"
  have ok2: "grid_ok W H ?t2" using assms(1) by (rule pass2_grid_ok)
  have s: "0 < ?s" using assms(4) by (rule river_strength_pos)
  have e2: "td_elevation (?t2 ! y ! x) \<le> WATER_LEVEL - ?s * 5"
    using carve_cell_river [OF assms(4)] by (simp only: pass2_cell [OF assms(1-3)])
  then have w2: "td_elevation (?t2 ! y ! x) < WATER_LEVEL" using s by linarith
  have c3: "?t3 ! y ! x = (?t2 ! y ! x)\<lparr>td_elevation := smooth_cell W H ?t2 x y\<rparr>"
    using ok2 assms(2,3) by (rule pass3_cell)
  have e3: "td_elevation (?t3 ! y ! x) = td_elevation (?t2 ! y ! x)"
    using w2 by (simp add: c3 smooth_cell_water)
  have w3: "td_elevation (?t3 ! y ! x) < WATER_LEVEL" using e3 w2 by simp
  let ?b = "DetermineBiome (td_elevation (?t3 ! y ! x)) (td_moisture (?t3 ! y ! x))"
  have b: "?b \<in> {DEEP_WATER, SHALLOW_WATER}" using w3 by (rule DetermineBiome_water)
  obtain world where w: "pass4 variation W H CreateBiomeProperties ?t3 = Inr world"
    and c: "finalize_cell variation W H CreateBiomeProperties x y (?t3 ! y ! x)
              = Inr (world ! y ! x)"
    using pass4_cell [OF assms(2,3)] by blast
  obtain props where p: "map_at CreateBiomeProperties ?b = Inr props"
    using biome_props_total by blast
  have tile: "world ! y ! x = \<lparr>tile_x = int x, tile_y = int y,
                  tile_elevation = trunc_int (td_elevation (?t3 ! y ! x)),
                  tile_color = tile_colour variation W H props x y,
                  tile_walkable = bp_walkable props\<rparr>"
    using c p by (simp add: finalize_cell_def Let_def)
  have nw: "\<not> bp_walkable props"
    using biome_props_walkable [OF p] b by auto
  have "tile_elevation (world ! y ! x) < 20" "\<not> tile_walkable (world ! y ! x)"
    using nw trunc_int_less [OF w3] by (simp_all add: tile)
  moreover have "finish_world variation W H t1 = Inr world"
    using w by (simp add: finish_world_def)
  moreover from this
  have "\<forall>shuffle c c'. pass1 shuffle W H c = (Inr t1, c') \<longrightarrow>
          GenerateWorld_dims shuffle variation W H c = (Inr world, c')"
    by (simp add: GenerateWorld_dims_def)
  ultimately show ?thesis
    using s e2 e3 w3 b by blast
qed

theorem river_cells_are_water_witness:
  "grid_ok 3 3 grid3 \<and> (0::nat) < 3 \<and> td_riverValue (grid3 ! 0 ! 0) > RIVER_THRESHOLD
   \<and> \<not> isl (finish_world variation3 3 3 grid3)
   \<and> td_elevation (pass3 3 3 (pass2 3 3 grid3) ! 0 ! 0) < WATER_LEVEL
   \<and> tile_elevation (projr (finish_world variation3 3 3 grid3) ! 0 ! 0) < 20
   \<and> \<not> tile_walkable (projr (finish_world variation3 3 3 grid3) ! 0 ! 0)"
proof -
  have rv: "td_riverValue (grid3 ! 0 ! 0) > RIVER_THRESHOLD"
    by (simp add: grid3_def cell_def level_defs)
  show ?thesis
    using river_cells_are_water [of 3 3 grid3 0 0 variation3] grid3_ok rv
    by auto
qed

subsection \<open>The noise engine\<close>

lemma and_15_mod: "(h::int) AND 15 = h mod 16"
proof -
  have "h AND mask 4 = take_bit 4 h" by (simp add: take_bit_eq_mask)
  then show ?thesis by (simp add: take_bit_eq_mod mask_eq_exp_minus_1)
qed

lemma mod16_cases:
  fixes h :: int
  shows "h mod 16 = 0 \<or> h mod 16 = 1 \<or> h mod 16 = 2 \<or> h mod 16 = 3
      \<or> h mod 16 = 4 \<or> h mod 16 = 5 \<or> h mod 16 = 6 \<or> h mod 16 = 7
      \<or> h mod 16 = 8 \<or> h mod 16 = 9 \<or> h mod 16 = 10 \<or> h mod 16 = 11
      \<or> h mod 16 = 12 \<or> h mod 16 = 13 \<or> h mod 16 = 14 \<or> h mod 16 = 15"
proof -
  define k where "k = h mod 16"
  have "0 \<le> k" "k < 16" by (simp_all add: k_def)
  then have "k = 0 \<or> k = 1 \<or> k = 2 \<or> k = 3 \<or> k = 4 \<or> k = 5 \<or> k = 6 \<or> k = 7
      \<or> k = 8 \<or> k = 9 \<or> k = 10 \<or> k = 11 \<or> k = 12 \<or> k = 13 \<or> k = 14 \<or> k = 15"
    by arith
  then show ?thesis unfolding k_def .
qed

lemma Grad_v_table:
  "Grad_v hash x y
     = (if hash mod 16 < 4 then y else if hash mod 16 = 12 \<or> hash mod 16 = 14 then x else 0)"
  by (simp add: Grad_v_def and_15_mod)

lemma Grad_table:
  "Grad hash x y
     = [x + y, - x + y, x - y, - x - y, x, - x, x, - x,
        y, - y, y, - y, y + x, - y, y - x, - y] ! nat (hash mod 16)"
  using mod16_cases [of hash]
  by (elim disjE) (simp_all add: Grad_def Grad_u_def Grad_v_def and_15_mod)

text \<open>Claim C4, as amended. \<^verbatim>\<open>Grad\<close> depends on the hash only through its residue modulo
  16, and on the two offsets. Its \<open>v\<close> term is \<open>y\<close> for the residues 0 to 3, \<open>x\<close> for the
  residues 12 and 14, and 0 for every other residue; the sixteen results are the table
  below. For the residues 13 and 15 the \<open>v\<close> term is 0 and the result is \<open>- u\<close> alone, that
  is \<open>- y\<close>.\<close>

theorem Grad_residue_table:
  "Grad hash x y = Grad (hash mod 16) x y
   \<and> Grad_v hash x y
       = (if hash mod 16 < 4 then y else if hash mod 16 = 12 \<or> hash mod 16 = 14 then x else 0)
   \<and> Grad hash x y
       = [x + y, - x + y, x - y, - x - y, x, - x, x, - x,
          y, - y, y, - y, y + x, - y, y - x, - y] ! nat (hash mod 16)
   \<and> (hash mod 16 = 13 \<or> hash mod 16 = 15 \<longrightarrow>
        Grad_v hash x y = 0 \<and> Grad hash x y = - Grad_u hash x y \<and> Grad hash x y = - y)"
proof -
  have "Grad hash x y = Grad (hash mod 16) x y"
    by (simp add: Grad_table)
  moreover have "hash mod 16 = 13 \<or> hash mod 16 = 15 \<longrightarrow>
        Grad_v hash x y = 0 \<and> Grad hash x y = - Grad_u hash x y \<and> Grad hash x y = - y"
    by (auto simp: Grad_table Grad_v_table Grad_u_def and_15_mod)
  ultimately show ?thesis
    using Grad_table [of hash x y] Grad_v_table [of hash x y] by blast
qed

theorem Grad_residue_table_witness:
  "(29::int) mod 16 = 13 \<and> Grad_v 29 2 3 = 0 \<and> Grad 29 2 3 = - 3 \<and> Grad 29 2 3 = Grad 13 2 3"
  using Grad_residue_table [of 29 2 3] by simp

text \<open>Claim C4, as stated, fails: at the hashes 13 and 15, with the offsets 2 and 3, the
  \<open>v\<close> term is 0 and \<^verbatim>\<open>Grad\<close> returns \<open>- u\<close>, that is -3, with no contribution of \<open>v\<close>.\<close>

theorem Grad_v_zero_counterexample:
  "Grad_v 13 2 3 = 0 \<and> Grad_v 15 2 3 = 0
   \<and> Grad 13 2 3 = - Grad_u 13 2 3 \<and> Grad 15 2 3 = - Grad_u 15 2 3
   \<and> Grad 13 2 3 = - 3 \<and> Grad 15 2 3 = - 3"
  by (simp add: Grad_def Grad_u_def Grad_v_def)

lemma LayeredNoise_loop_done:
  "octaves \<le> i \<Longrightarrow>
     LayeredNoise_loop shuffle x y octaves persistence seed i amplitude frequency tot maxValue c
       = (tot, maxValue, c)"
  by (subst LayeredNoise_loop.simps) simp

lemma fdiv_pos: "0 < b \<Longrightarrow> fdiv a b = Inr (a / b)"
  by (simp add: fdiv_def)

text \<open>Claim C6. \<^verbatim>\<open>LayeredNoise\<close> returns \<open>total / maxValue\<close> when the accumulated
  \<open>maxValue\<close> is positive and 0 otherwise; it never divides by zero; and when \<open>octaves\<close> is
  zero or negative the loop body never runs, the result is exactly 0 and the cache is
  untouched.\<close>

theorem LayeredNoise_guarded:
  "fst (LayeredNoise shuffle x y octaves persistence scale seed c)
     = (case LayeredNoise_loop shuffle x y octaves persistence seed 0 1 scale 0 0 c of
          (tot, maxValue, c') \<Rightarrow> Inr (if maxValue > 0 then tot / maxValue else 0))
   \<and> fst (LayeredNoise shuffle x y octaves persistence scale seed c) \<noteq> Inl DivisionByZero
   \<and> (octaves \<le> 0 \<longrightarrow>
        LayeredNoise shuffle x y octaves persistence scale seed c = (Inr 0, c))"
  by (auto simp: LayeredNoise_def fdiv_pos LayeredNoise_loop_done split: prod.splits)

theorem LayeredNoise_guarded_witness:
  "(0::int) \<le> 0 \<and> (- 3::int) \<le> 0
   \<and> LayeredNoise (\<lambda>seed xs. xs) (1 / 2) (1 / 3) 0 (1 / 2) 2 7 initial_cache
       = (Inr 0, initial_cache)
   \<and> LayeredNoise (\<lambda>seed xs. xs) (1 / 2) (1 / 3) (- 3) (1 / 2) 2 7 initial_cache
       = (Inr 0, initial_cache)"
  using LayeredNoise_guarded [of "\<lambda>seed xs. xs" "1 / 2" "1 / 3" 0 "1 / 2" 2 7 initial_cache]
    LayeredNoise_guarded [of "\<lambda>seed xs. xs" "1 / 2" "1 / 3" "- 3" "1 / 2" 2 7 initial_cache]
  by simp

subsection \<open>The static permutation table\<close>

lemma permutation_length: "length permutation = 256"
  by (simp add: permutation_def)

lemma permutation_sorted: "sort permutation = map int [0..<256]"
  by code_simp

lemma permutation_set: "set permutation = int ` {0..<256}"
proof -
  have "set permutation = set (sort permutation)" by simp
  also have "\<dots> = int ` {0..<256}" by (simp only: permutation_sorted set_map set_upt)
  finally show ?thesis .
qed

lemma shuffled_length:
  assumes "\<And>seed xs. mset (shuffle seed xs) = mset xs"
  shows "length (shuffle seed permutation) = 256"
  using assms [of seed permutation] permutation_length by (metis size_mset)

lemma shuffled_set:
  assumes "\<And>seed xs. mset (shuffle seed xs) = mset xs"
  shows "set (shuffle seed permutation) = int ` {0..<256}"
  using assms [of seed permutation] permutation_set by (metis set_mset_mset)

text \<open>The copy loop writes the shuffled table twice.\<close>

lemma fill_table_nth:
  assumes "length p0 = 512" and "n \<le> 256" and "k < 512"
  shows "length (fold (\<lambda>i p. p[i := bp ! i, 256 + i := bp ! i]) [0..<n] p0) = 512
         \<and> fold (\<lambda>i p. p[i := bp ! i, 256 + i := bp ! i]) [0..<n] p0 ! k
             = (if k < n then bp ! k
                else if 256 \<le> k \<and> k < 256 + n then bp ! (k - 256) else p0 ! k)"
  using assms(2,3)
proof (induction n arbitrary: k)
  case 0
  then show ?case using assms(1) by auto
next
  case (Suc n)
  let ?r = "fold (\<lambda>i p. p[i := bp ! i, 256 + i := bp ! i]) [0..<n] p0"
  have n: "n \<le> 256" using Suc.prems by simp
  have len: "length ?r = 512" using Suc.IH [OF n, of 0] by simp
  have ih: "?r ! k = (if k < n then bp ! k
                else if 256 \<le> k \<and> k < 256 + n then bp ! (k - 256) else p0 ! k)"
    using Suc.IH [OF n Suc.prems(2)] by simp
  have step: "fold (\<lambda>i p. p[i := bp ! i, 256 + i := bp ! i]) [0..<Suc n] p0
                = ?r[n := bp ! n, 256 + n := bp ! n]"
    by simp
  show ?case
    unfolding step using len ih Suc.prems by (auto simp: nth_list_update)
qed

lemma fill_table:
  assumes "length p0 = 512" and "length bp = 256"
  shows "fold (\<lambda>i p. p[i := bp ! i, 256 + i := bp ! i]) [0..<256] p0 = bp @ bp"
proof (rule nth_equalityI)
  show "length (fold (\<lambda>i p. p[i := bp ! i, 256 + i := bp ! i]) [0..<256] p0) = length (bp @ bp)"
    using fill_table_nth [OF assms(1), of 256 0 bp] assms(2) by simp
next
  fix k
  assume "k < length (fold (\<lambda>i p. p[i := bp ! i, 256 + i := bp ! i]) [0..<256] p0)"
  then have k: "k < 512" using fill_table_nth [OF assms(1), of 256 0 bp] by simp
  show "fold (\<lambda>i p. p[i := bp ! i, 256 + i := bp ! i]) [0..<256] p0 ! k = (bp @ bp) ! k"
    using fill_table_nth [OF assms(1) _ k, of 256 bp] k assms(2)
    by (simp add: nth_append)
qed

lemma refresh_table_new_seed:
  assumes "\<And>seed xs. mset (shuffle seed xs) = mset xs"
    and "length (nc_p c) = 512" and "seed \<noteq> nc_lastSeed c"
  shows "refresh_table shuffle seed c
           = \<lparr>nc_p = shuffle seed permutation @ shuffle seed permutation, nc_lastSeed = seed\<rparr>"
proof -
  have "length (shuffle seed permutation) = 256"
    using assms(1) by (rule shuffled_length)
  then show ?thesis
    using assms(3) fill_table [OF assms(2)] by (simp add: refresh_table_def Let_def)
qed

lemma refresh_table_same_seed: "seed = nc_lastSeed c \<Longrightarrow> refresh_table shuffle seed c = c"
  by (simp add: refresh_table_def)

lemma and_255_small: "Y < 256 \<Longrightarrow> int Y AND 255 = int Y"
proof -
  assume "Y < 256"
  have "int Y AND mask 8 = take_bit 8 (int Y)" by (simp add: take_bit_eq_mask)
  then have "int Y AND 255 = int Y mod 256" by (simp add: take_bit_eq_mod mask_eq_exp_minus_1)
  then show ?thesis using \<open>Y < 256\<close> by simp
qed

lemma floor_quarter: "\<lfloor>real Y + 1 / 4\<rfloor> = int Y"
  by (rule floor_unique) simp_all

lemma Fade_quarter: "Fade 0 = 0" "Fade (1 / 4) = 53 / 512"
  by (simp_all add: Fade_def)

lemma Lerp_0: "Lerp a b 0 = a"
  by (simp add: Lerp_def)

lemma Grad_x0_abs: "\<bar>Grad h 0 t\<bar> \<le> \<bar>t\<bar>"
  using mod16_cases [of h] by (elim disjE) (simp_all add: Grad_table)

lemma Grad_4_x0: "Grad 4 0 t = 0"
  by (simp add: Grad_def Grad_u_def Grad_v_def)

lemma Grad_0: "Grad 0 a b = a + b"
  by (simp add: Grad_def Grad_u_def Grad_v_def)

lemma perlin_at_column:
  assumes "Y < 256"
  shows "perlin_at p 0 (real Y + 1 / 4)
           = Lerp (Grad (p ! nat (p ! nat (p ! 0 + int Y))) 0 (1 / 4))
                  (Grad (p ! nat (p ! nat (p ! 0 + int Y + 1))) 0 (- 3 / 4))
                  (53 / 512)"
  using assms
  by (simp add: perlin_at_def Let_def floor_quarter and_255_small Fade_quarter Lerp_0)

lemma perlin_at_zero_table:
  assumes "Y < 256"
  shows "perlin_at (replicate 512 0) 0 (real Y + 1 / 4) = 75 / 512"
  using assms by (simp add: perlin_at_column Grad_0 Lerp_def)

lemma cache_ok_length:
  assumes "\<And>seed xs. mset (shuffle seed xs) = mset xs" and "cache_ok shuffle c"
  shows "length (nc_p c) = 512"
proof -
  have "length (shuffle (nc_lastSeed c) permutation) = 256"
    using assms(1) by (rule shuffled_length)
  then show ?thesis
    using assms(2) by (auto simp: cache_ok_def initial_cache_def)
qed

lemma cache_ok_refresh:
  assumes "\<And>seed xs. mset (shuffle seed xs) = mset xs" and "cache_ok shuffle c"
  shows "cache_ok shuffle (refresh_table shuffle seed c)"
proof (cases "seed = nc_lastSeed c")
  case True
  then show ?thesis using assms(2) by (simp add: refresh_table_same_seed)
next
  case False
  have "refresh_table shuffle seed c
          = \<lparr>nc_p = shuffle seed permutation @ shuffle seed permutation, nc_lastSeed = seed\<rparr>"
    using assms(1) cache_ok_length [OF assms] False by (rule refresh_table_new_seed)
  then show ?thesis by (simp add: cache_ok_def)
qed

lemma cache_ok_PerlinNoise:
  assumes "\<And>seed xs. mset (shuffle seed xs) = mset xs" and "cache_ok shuffle c"
  shows "cache_ok shuffle (snd (PerlinNoise shuffle x y seed c))"
  using cache_ok_refresh [OF assms] by (simp add: PerlinNoise_def Let_def)

text \<open>With any seed other than -1 the result depends on the arguments only: it is read
  from the doubled shuffle of that seed, whatever the cache held before.\<close>

lemma PerlinNoise_other_seeds:
  assumes "\<And>seed xs. mset (shuffle seed xs) = mset xs" and "cache_ok shuffle c"
    and "seed \<noteq> - 1"
  shows "fst (PerlinNoise shuffle x y seed c)
           = perlin_at (shuffle seed permutation @ shuffle seed permutation) x y"
proof (cases "seed = nc_lastSeed c")
  case True
  then have "c \<noteq> initial_cache" using assms(3) by (auto simp: initial_cache_def)
  then have "nc_p c = shuffle seed permutation @ shuffle seed permutation"
    using assms(2) True by (simp add: cache_ok_def)
  then show ?thesis using True by (simp add: PerlinNoise_def Let_def refresh_table_same_seed)
next
  case False
  have "refresh_table shuffle seed c
          = \<lparr>nc_p = shuffle seed permutation @ shuffle seed permutation, nc_lastSeed = seed\<rparr>"
    using assms(1) cache_ok_length [OF assms(1,2)] False by (rule refresh_table_new_seed)
  then show ?thesis by (simp add: PerlinNoise_def Let_def)
qed

lemma doubled_nth: "length bp = 256 \<Longrightarrow> k < 256 \<Longrightarrow> (bp @ bp) ! k = bp ! k"
  by (simp add: nth_append)

lemma doubled_nth_high: "length bp = 256 \<Longrightarrow> k < 256 \<Longrightarrow> (bp @ bp) ! (k + 256) = bp ! k"
  by (simp add: nth_append)

lemma column_with_hash_4:
  assumes set: "set bp = int ` {0..<256}" and len: "length bp = 256"
  shows "\<exists>Y<256. (bp @ bp) ! nat ((bp @ bp) ! nat ((bp @ bp) ! 0 + int Y)) = 4"
proof -
  have "(4::int) \<in> set bp" unfolding set by (rule image_eqI [where x = 4]) simp_all
  then obtain j where j: "j < 256" "bp ! j = 4"
    using len by (auto simp: in_set_conv_nth)
  have "int j \<in> set bp" unfolding set using j(1) by simp
  then obtain k where k: "k < 256" "bp ! k = int j"
    using len by (auto simp: in_set_conv_nth)
  have "bp ! 0 \<in> set bp" using len by simp
  then obtain a where a: "a < 256" "bp ! 0 = int a" unfolding set by auto
  define Y where "Y = (if a \<le> k then k - a else k + 256 - a)"
  have Y: "Y < 256" using a(1) k(1) unfolding Y_def by auto
  have sum: "a + Y = k \<or> a + Y = k + 256" using a(1) unfolding Y_def by auto
  have first: "(bp @ bp) ! 0 = int a" using a(2) len by (simp add: doubled_nth)
  have "(bp @ bp) ! (a + Y) = int j"
    using sum k doubled_nth [OF len k(1)] doubled_nth_high [OF len k(1)] by auto
  then have second: "(bp @ bp) ! nat ((bp @ bp) ! 0 + int Y) = int j"
    unfolding first by (simp add: nat_add_distrib)
  have "(bp @ bp) ! nat ((bp @ bp) ! nat ((bp @ bp) ! 0 + int Y)) = 4"
    unfolding second using j doubled_nth [OF len j(1)] by simp
  then show ?thesis using Y by blast
qed

lemma perlin_at_hash_4:
  assumes "Y < 256" and "p ! nat (p ! nat (p ! 0 + int Y)) = 4"
  shows "perlin_at p 0 (real Y + 1 / 4) \<noteq> 75 / 512"
proof -
  let ?g = "Grad (p ! nat (p ! nat (p ! 0 + int Y + 1))) 0 (- 3 / 4)"
  have "perlin_at p 0 (real Y + 1 / 4) = 53 / 512 * ?g"
    using assms by (simp add: perlin_at_column Grad_4_x0 Lerp_def)
  moreover have "\<bar>?g\<bar> \<le> 3 / 4" using Grad_x0_abs [of _ "- 3 / 4"] by simp
  ultimately show ?thesis by (simp add: abs_le_iff) 
qed

text \<open>Claim C3. \<^verbatim>\<open>PerlinNoise\<close> should return the same value for the same \<open>(x, y, seed)\<close>
  whatever was called before. With the seed -1 it does not: the sentinel \<^verbatim>\<open>lastSeed = -1\<close>
  makes the first call of a process skip the shuffle and read the table of zeros, while
  the same call after a call with another seed reads the shuffled table. For every
  shuffle that rearranges its input there is a point \<open>(0, Y + 1/4)\<close> where the two calls
  return different values.\<close>

theorem PerlinNoise_seed_minus1_depends_on_history:
  assumes "\<And>seed xs. mset (shuffle seed xs) = mset xs"
  shows "nc_p (snd (PerlinNoise shuffle x y (- 1) initial_cache)) = replicate 512 0
         \<and> nc_p (snd (PerlinNoise shuffle x y (- 1)
                        (snd (PerlinNoise shuffle 0 0 0 initial_cache))))
             = shuffle (- 1) permutation @ shuffle (- 1) permutation
         \<and> (\<exists>Y<256.
               fst (PerlinNoise shuffle 0 (real Y + 1 / 4) (- 1) initial_cache)
                 \<noteq> fst (PerlinNoise shuffle 0 (real Y + 1 / 4) (- 1)
                          (snd (PerlinNoise shuffle 0 0 0 initial_cache))))"
proof -
  let ?bp = "shuffle (- 1) permutation"
  let ?c1 = "snd (PerlinNoise shuffle 0 0 0 initial_cache)"
  have first: "PerlinNoise shuffle x' y' (- 1) initial_cache
                 = (perlin_at (replicate 512 0) x' y', initial_cache)" for x' y'
    by (simp add: PerlinNoise_def refresh_table_def initial_cache_def)
  have c1: "?c1 = \<lparr>nc_p = shuffle 0 permutation @ shuffle 0 permutation, nc_lastSeed = 0\<rparr>"
    using refresh_table_new_seed [OF assms, of initial_cache 0]
    by (simp add: PerlinNoise_def initial_cache_def)
  have len: "length ?bp = 256" using assms by (rule shuffled_length)
  have "length (shuffle 0 permutation) = 256" using assms by (rule shuffled_length)
  then have later: "PerlinNoise shuffle x' y' (- 1) ?c1
                 = (perlin_at (?bp @ ?bp) x' y', \<lparr>nc_p = ?bp @ ?bp, nc_lastSeed = - 1\<rparr>)"
    for x' y'
    unfolding c1 using refresh_table_new_seed [OF assms,
        of "\<lparr>nc_p = shuffle 0 permutation @ shuffle 0 permutation, nc_lastSeed = 0\<rparr>" "- 1"]
    by (simp add: PerlinNoise_def)
  have set: "set ?bp = int ` {0..<256}" using assms by (rule shuffled_set)
  obtain Y where Y: "Y < 256"
    and h: "(?bp @ ?bp) ! nat ((?bp @ ?bp) ! nat ((?bp @ ?bp) ! 0 + int Y)) = 4"
    using column_with_hash_4 [OF set len] by blast
  have "fst (PerlinNoise shuffle 0 (real Y + 1 / 4) (- 1) initial_cache) = 75 / 512"
    using Y by (simp add: first perlin_at_zero_table)
  moreover have "fst (PerlinNoise shuffle 0 (real Y + 1 / 4) (- 1) ?c1) \<noteq> 75 / 512"
    using perlin_at_hash_4 [OF Y h] by (simp add: later)
  ultimately have ex: "\<exists>Y<256.
               fst (PerlinNoise shuffle 0 (real Y + 1 / 4) (- 1) initial_cache)
                 \<noteq> fst (PerlinNoise shuffle 0 (real Y + 1 / 4) (- 1) ?c1)"
    using Y by auto
  have t1: "nc_p (snd (PerlinNoise shuffle x y (- 1) initial_cache)) = replicate 512 0"
    unfolding first by (simp add: initial_cache_def)
  have t2: "nc_p (snd (PerlinNoise shuffle x y (- 1) ?c1)) = ?bp @ ?bp"
    unfolding later by simp
  show ?thesis using t1 t2 ex by blast
qed

theorem PerlinNoise_seed_minus1_witness:
  "nc_p (snd (PerlinNoise (\<lambda>seed xs. xs) 0 0 (- 1) initial_cache)) = replicate 512 0
   \<and> nc_p (snd (PerlinNoise (\<lambda>seed xs. xs) 0 0 (- 1)
                  (snd (PerlinNoise (\<lambda>seed xs. xs) 0 0 0 initial_cache))))
       = permutation @ permutation
   \<and> (\<exists>Y<256.
         fst (PerlinNoise (\<lambda>seed xs. xs) 0 (real Y + 1 / 4) (- 1) initial_cache)
           \<noteq> fst (PerlinNoise (\<lambda>seed xs. xs) 0 (real Y + 1 / 4) (- 1)
                    (snd (PerlinNoise (\<lambda>seed xs. xs) 0 0 0 initial_cache))))"
  using PerlinNoise_seed_minus1_depends_on_history [of "\<lambda>seed xs. xs" 0 0] by simp

subsection \<open>The whole generation\<close>

lemma LayeredNoise_ok:
  "\<exists>v c'. LayeredNoise shuffle x y octaves persistence scale seed c = (Inr v, c')"
  by (auto simp: LayeredNoise_def fdiv_pos split: prod.splits)

lemma pass1_cell_ok:
  "\<exists>e m rv c'. pass1_cell shuffle W H x y c = (Inr (e, m, rv), c')"
proof -
  let ?nx = "real x / real W" and ?ny = "real y / real H"
  obtain v1 c1 where 1: "LayeredNoise shuffle (?nx * (1 / 2)) (?ny * (1 / 2)) CONTINENT_OCTAVES
      (6 / 10) (1 / 2) 1 c = (Inr v1, c1)"
    using LayeredNoise_ok by blast
  obtain v2 c2 where 2: "LayeredNoise shuffle (?nx * 5) (?ny * 5) TERRAIN_OCTAVES (1 / 2) 2 2 c1
      = (Inr v2, c2)"
    using LayeredNoise_ok by blast
  obtain v3 c3 where 3: "LayeredNoise shuffle (?nx * 3) (?ny * 3) 4 (7 / 10) (3 / 2) 5 c2
      = (Inr v3, c3)"
    using LayeredNoise_ok by blast
  obtain v4 c4 where 4: "LayeredNoise shuffle (?nx * 4) (?ny * 4) 4 (1 / 2) 2 3 c3
      = (Inr v4, c4)"
    using LayeredNoise_ok by blast
  obtain v5 c5 where 5: "LayeredNoise shuffle (?nx * 8) (?ny * 8) RIVER_OCTAVES (7 / 10) 3 4 c4
      = (Inr v5, c5)"
    using LayeredNoise_ok by blast
  show ?thesis
    by (simp only: pass1_cell_def Let_def 1 2 3 4 5 split sum.case) (intro exI, rule refl)
qed

lemma fold_invariant:
  assumes "\<And>k s. P s \<Longrightarrow> P (F k s)" and "P s"
  shows "P (fold F ks s)"
  using assms(2) by (induction ks arbitrary: s) (simp_all add: assms(1))

lemma grid_ok_update:
  assumes "grid_ok W H t"
  shows "grid_ok W H (t[y := (t ! y)[x := v]])"
proof (cases "y < length t")
  case True
  have "length (t[y := (t ! y)[x := v]] ! n) = W" if "n < length t" for n
    using assms that True by (cases "n = y") (simp_all add: grid_ok_def list_all_length)
  then show ?thesis using assms by (simp add: grid_ok_def list_all_length)
next
  case False
  then show ?thesis using assms by (simp add: list_update_beyond)
qed

lemma pass1_step_ok:
  assumes "st = (Inr t, c)" and "grid_ok W H t"
  shows "\<exists>t' c'. pass1_step shuffle W H y x st = (Inr t', c') \<and> grid_ok W H t'"
proof -
  obtain e m rv c' where cell: "pass1_cell shuffle W H x y c = (Inr (e, m, rv), c')"
    using pass1_cell_ok by blast
  show ?thesis
    using grid_ok_update [OF assms(2)] by (simp add: pass1_step_def assms(1) cell)
qed

lemma pass1_ok:
  "\<exists>t c'. pass1 shuffle W H c = (Inr t, c') \<and> grid_ok W H t"
proof -
  let ?P = "\<lambda>st. \<exists>t (c' :: noise_cache). st = (Inr t, c')
                       \<and> grid_ok W H (t :: TerrainData list list)"
  have step: "?P (pass1_step shuffle W H y x st)" if "?P st" for y x st
    using that pass1_step_ok by blast
  have row: "?P (pass1_row shuffle W H y st)" if "?P st" for y st
    unfolding pass1_row_def by (rule fold_invariant [where P = ?P, OF step that])
  have init: "?P (Inr (replicate H (replicate W zero_terrain)), c)"
    by (simp add: replicate_grid_ok)
  have "?P (fold (pass1_row shuffle W H) [0..<H]
              (Inr (replicate H (replicate W zero_terrain)), c))"
    using row init by (rule fold_invariant [where P = ?P])
  then show ?thesis
    unfolding pass1_def .
qed

lemma finalize_cell_xy:
  assumes "finalize_cell variation W H biomeProps x y d = Inr tile"
  shows "tile_x tile = int x \<and> tile_y tile = int y"
  using assms by (auto simp: finalize_cell_def Let_def split: sum.splits)

lemma finish_world_ok:
  "\<exists>world. finish_world variation W H t = Inr world \<and> grid_ok W H world
     \<and> (\<forall>y<H. \<forall>x<W. tile_x (world ! y ! x) = int x \<and> tile_y (world ! y ! x) = int y)"
proof -
  let ?t3 = "pass3 W H (pass2 W H t)"
  obtain world where w: "pass4 variation W H CreateBiomeProperties ?t3 = Inr world"
    using pass4_unfold by blast
  have cellxy: "tile_x (world ! y ! x) = int x \<and> tile_y (world ! y ! x) = int y"
    and ok: "grid_ok W H world" if xy: "x < W" "y < H" for x y
  proof -
    obtain world' where w': "pass4 variation W H CreateBiomeProperties ?t3 = Inr world'"
      and ok': "grid_ok W H world'"
      and c: "finalize_cell variation W H CreateBiomeProperties x y (?t3 ! y ! x)
                = Inr (world' ! y ! x)"
      using pass4_cell [OF xy] by blast
    have eq: "world' = world" using w w' by simp
    show "tile_x (world ! y ! x) = int x \<and> tile_y (world ! y ! x) = int y"
      using finalize_cell_xy [OF c] unfolding eq .
    show "grid_ok W H world" using ok' unfolding eq .
  qed
  have "grid_ok W H world"
    using w pass4_unfold [of variation W H ?t3]
      fold_update2_grid_ok [where g = "\<lambda>x y _. projr (finalize_cell variation W H
          CreateBiomeProperties x y (?t3 ! y ! x))" and W = W and H = H
          and s = "replicate H (replicate W default_tile)"
          and F = "\<lambda>y x w. w[y := (w ! y)[x := projr (finalize_cell variation W H
          CreateBiomeProperties x y (?t3 ! y ! x))]]"]
    by (simp add: replicate_grid_ok)
  then show ?thesis
    using w cellxy unfolding finish_world_def by blast
qed

lemma GenerateWorld_dims_ok:
  "\<exists>world c'. GenerateWorld_dims shuffle variation W H c = (Inr world, c')
     \<and> grid_ok W H world
     \<and> (\<forall>y<H. \<forall>x<W. tile_x (world ! y ! x) = int x \<and> tile_y (world ! y ! x) = int y)"
proof -
  obtain t c' where t: "pass1 shuffle W H c = (Inr t, c')"
    using pass1_ok by blast
  obtain world where "finish_world variation W H t = Inr world" "grid_ok W H world"
    "\<forall>y<H. \<forall>x<W. tile_x (world ! y ! x) = int x \<and> tile_y (world ! y ! x) = int y"
    using finish_world_ok by blast
  then show ?thesis
    by (simp add: GenerateWorld_dims_def t)
qed

text \<open>Claim C2, as amended. \<^verbatim>\<open>GenerateWorld\<close> has no width, height or seed argument and no
  dimension error: its dimensions are the constants 128 and 128, and every call returns
  a full grid of 128 rows of 128 tiles, the tile in row \<open>y\<close> and column \<open>x\<close> carrying the
  coordinates \<open>(x, y)\<close>. Its body, read as a function of the two dimensions, returns a
  full grid of \<open>H\<close> rows of \<open>W\<close> tiles for all \<open>W\<close> and \<open>H\<close>, zero included, and never a
  part of a grid.\<close>

theorem GenerateWorld_full_grid:
  "(\<exists>world c'. GenerateWorld shuffle variation c = (Inr world, c')
      \<and> grid_ok 128 128 world
      \<and> (\<forall>y<128. \<forall>x<128. tile_x (world ! y ! x) = int x \<and> tile_y (world ! y ! x) = int y))
   \<and> (\<exists>world c'. GenerateWorld_dims shuffle variation W H c = (Inr world, c')
      \<and> grid_ok W H world
      \<and> (\<forall>y<H. \<forall>x<W. tile_x (world ! y ! x) = int x \<and> tile_y (world ! y ! x) = int y))"
  using GenerateWorld_dims_ok [of shuffle variation 128 128 c]
    GenerateWorld_dims_ok [of shuffle variation W H c]
  unfolding GenerateWorld_def WORLD_WIDTH_def WORLD_HEIGHT_def by blast

theorem GenerateWorld_full_grid_witness:
  "\<not> isl (fst (GenerateWorld (\<lambda>seed xs. xs) variation3 initial_cache))
   \<and> tile_x (projr (fst (GenerateWorld (\<lambda>seed xs. xs) variation3 initial_cache)) ! 127 ! 5) = 5
   \<and> tile_y (projr (fst (GenerateWorld (\<lambda>seed xs. xs) variation3 initial_cache)) ! 127 ! 5) = 127
   \<and> \<not> isl (fst (GenerateWorld_dims (\<lambda>seed xs. xs) variation3 2 3 initial_cache))
   \<and> grid_ok 2 3 (projr (fst (GenerateWorld_dims (\<lambda>seed xs. xs) variation3 2 3 initial_cache)))
   \<and> tile_x (projr (fst (GenerateWorld_dims (\<lambda>seed xs. xs) variation3 2 3 initial_cache)) ! 2 ! 1) = 1"
  using GenerateWorld_full_grid [of "\<lambda>seed xs. xs" variation3 initial_cache 2 3]
  by auto

text \<open>Claim C2, as stated, fails: there is no check of the dimensions. With the width 0
  (and the height 0 or 2) the body of \<^verbatim>\<open>GenerateWorld\<close> returns an empty grid, or a grid of
  empty rows, and no error.\<close>

theorem GenerateWorld_zero_dimension_counterexample:
  "GenerateWorld_dims (\<lambda>seed xs. xs) variation3 0 0 initial_cache = (Inr [], initial_cache)
   \<and> GenerateWorld_dims (\<lambda>seed xs. xs) variation3 0 2 initial_cache
       = (Inr [[], []], initial_cache)"
  by (simp add: GenerateWorld_dims_def pass1_def pass1_row_def finish_world_def pass2_def
      pass2_row_def pass3_def smooth_all_def copy_back_def pass4_def pass4_row_def
      eval_nat_numeral)

end
